theory Spec2Isabelle
  imports Complex_Main "HOL-Library.List_Lexorder" "HOL-Library.Char_ord" "HOL-Library.Multiset"
    "HOL-Library.Log_Nat"
begin

section \<open>Numbers, strings and users (src/types.ts, lines 1-13)\<close>

text \<open>
  A TypeScript \<^verbatim>\<open>number\<close> that counts items (a quantity, the result of \<^verbatim>\<open>parseInt\<close>) is an
  \<^typ>\<open>int\<close>: a number holds every integer below \<open>2 ^ 53\<close> exactly. One that holds money
  (\<^verbatim>\<open>value\<close>, \<^verbatim>\<open>total\<close>) is an IEEE 754 double; it is the \<^typ>\<open>rat\<close> that the double
  stands for, and the literals, products and sums of the program are rounded to the nearest
  double as JavaScript rounds them (section \<open>JavaScript numbers\<close> below).
  A time stamp (\<^verbatim>\<open>Date.now()\<close>) is a \<^typ>\<open>nat\<close>. An optional field is an \<^typ>\<open>'a option\<close>,
  \<^term>\<open>None\<close> standing for \<^verbatim>\<open>undefined\<close> (and for the \<^verbatim>\<open>null\<close> of a store row).
  Strings are \<^typ>\<open>string\<close>; the dates, enum names and identifiers the program handles are ASCII.
  Where two records have a field of the same name, the field is written with the name of its
  record: \<open>User.id\<close>, \<open>WorkRecord.id\<close>, \<open>CalculatorView.mode\<close>.
\<close>

datatype UserRole = ADMIN | DRIVER

text \<open>
  A row of the hosted store's table \<^verbatim>\<open>users\<close>, under the column names that storage.ts
  writes and reads. The store assigns the \<^verbatim>\<open>id\<close>: the row given to an insert has none.
\<close>

record UserInsert =
  name :: string
  username :: string
  password_hash :: string
  role :: UserRole
  created_at :: nat

record UserRow = UserInsert +
  id :: string

text \<open>The user as the program holds it (\<^verbatim>\<open>interface User\<close>).\<close>

record User =
  id :: string
  name :: string
  username :: string
  passwordHash :: string
  role :: UserRole
  createdAt :: nat

section \<open>JavaScript numbers\<close>

text \<open>
  A finite double is a rational \<open>m * 2 ^ e\<close> with integers \<open>\<bar>m\<bar> < 2 ^ 53\<close> and
  \<open>- 1074 \<le> e\<close>. ECMAScript gives a decimal literal, a product and a sum the Number value
  for the exact result: the double nearest to it, and of two equally near ones the one with
  the even significand (IEEE 754 binary64, round to nearest, ties to even).

  \<open>expo a\<close> is the binary exponent of a positive rational: \<open>2 ^ expo a \<le> a < 2 ^ (expo a + 1)\<close>
  (lemma \<open>expo_bounds\<close>); it is computed from the bit lengths of the numerator and the
  denominator. From \<open>2 ^ expo a\<close> to \<open>2 ^ (expo a + 1)\<close> the doubles are the multiples of
  \<open>2 ^ (expo a - 52)\<close>; below \<open>2 ^ - 1022\<close> they are the multiples of \<open>2 ^ - 1074\<close>.
  \<open>round_even\<close> is the nearest integer, the even one at a tie.

  Not represented: the overflow to \<^verbatim>\<open>Infinity\<close> (results of \<open>2 ^ 1024\<close> and more),
  \<^verbatim>\<open>NaN\<close>, and the sign of zero. The program's amounts are far from them.
\<close>

definition expo :: "rat \<Rightarrow> int" where
  "expo a = (let (n, d) = quotient_of a;
                 k = bitlen n - bitlen d
             in if 2 powi k \<le> a then k else k - 1)"

definition round_even :: "rat \<Rightarrow> int" where
  "round_even q = (let f = \<lfloor>q\<rfloor>;
                       r = q - rat_of_int f
                   in if r < 1 / 2 then f
                      else if 1 / 2 < r then f + 1
                      else if even f then f else f + 1)"

definition round_double :: "rat \<Rightarrow> rat" where
  "round_double a =
     (if a = 0 then 0
      else (let e = max (expo \<bar>a\<bar>) (- 1022) - 52
            in sgn a * rat_of_int (round_even (\<bar>a\<bar> / 2 powi e)) * 2 powi e))"

text \<open>\<^verbatim>\<open>x * y\<close> and \<^verbatim>\<open>x + y\<close> on numbers (ECMAScript \<^verbatim>\<open>Number::multiply\<close>, \<^verbatim>\<open>Number::add\<close>).\<close>

definition Number_multiply :: "rat \<Rightarrow> rat \<Rightarrow> rat" where
  "Number_multiply x y = round_double (x * y)"

definition Number_add :: "rat \<Rightarrow> rat \<Rightarrow> rat" where
  "Number_add x y = round_double (x + y)"

section \<open>Pay calculator (src/services/storage.ts 173-186, src/types.ts 191-204)\<close>

text \<open>
  The literals \<^verbatim>\<open>1.00\<close> and \<^verbatim>\<open>0.80\<close> are the doubles nearest to 1 and to 4/5; the day rates
  are integers, which a double holds exactly.
\<close>

record IndividualPay =
  parcelValue :: rat
  collectionValue :: rat
  total :: rat

definition calculateIndividual :: "int \<Rightarrow> int \<Rightarrow> IndividualPay" where
  "calculateIndividual parcels collections =
     (let parcelValue = Number_multiply (rat_of_int parcels) (round_double 1.00);
          collectionValue = Number_multiply (rat_of_int collections) (round_double 0.80)
      in \<lparr>parcelValue = parcelValue, collectionValue = collectionValue,
          total = Number_add parcelValue collectionValue\<rparr>)"

definition calculateDaily :: "bool \<Rightarrow> int \<Rightarrow> rat" where
  "calculateDaily isTwoIDs quantity =
     (if \<not> isTwoIDs then 180
      else if quantity < 150 then 260
      else if quantity \<le> 250 then 300
      else 360)"

section \<open>Work records and monthly groups (src/types.ts, lines 15-54)\<close>

datatype RecordMode = INDIVIDUAL | DAILY

datatype IndividualType = PARCEL | COLLECTION | DAILY_FLAT

text \<open>
  A row of the hosted store's table \<^verbatim>\<open>work_records\<close>; the nullable columns are options.
\<close>

record RecordInsert =
  user_id :: string
  date :: string
  mode :: RecordMode
  type :: IndividualType
  quantity :: int
  "value" :: rat
  route_names :: "string option"
  is_two_ids :: "bool option"
  photos :: "string list option"
  timestamp :: nat

record RecordRow = RecordInsert +
  id :: string

text \<open>
  The state of the record-entry form (\<^verbatim>\<open>CalculatorView\<close>, src/App.tsx 236-251): one field for
  each \<^verbatim>\<open>useState\<close> variable the save handler reads. The text inputs hold strings.
\<close>

record CalculatorView =
  mode :: RecordMode
  date :: string
  parcels :: string
  collections :: string
  isTwoIDs :: bool
  dailyQty :: string
  routeId1 :: string
  routeId2 :: string
  photos :: "string list"

text \<open>
  \<^verbatim>\<open>createRecord\<close> takes an \<^verbatim>\<open>Omit<WorkRecord, 'id' | 'timestamp'>\<close>: the draft is the record
  without the two fields the store layer adds, so \<open>WorkRecord\<close> extends the draft.
\<close>

record WorkRecordDraft =
  userId :: string
  date :: string
  mode :: RecordMode
  type :: IndividualType
  quantity :: int
  "value" :: rat
  routeNames :: "string option"
  isTwoIDs :: "bool option"
  photos :: "string list"

record WorkRecord = WorkRecordDraft +
  id :: string
  timestamp :: nat

record MonthlyGroup =
  monthKey :: string
  label :: string
  total :: rat
  records :: "WorkRecord list"

section \<open>JavaScript built-ins the program calls\<close>

text \<open>
  \<^verbatim>\<open>a.localeCompare(b)\<close> is negative, zero or positive as \<open>a\<close> sorts before, with or after
  \<open>b\<close>. The program compares \<^verbatim>\<open>YYYY-MM-DD\<close> dates and \<^verbatim>\<open>YYYY-MM\<close> month keys only; on
  such strings (decimal digits, with the hyphens at fixed places) the collation order is the
  lexicographic order of the characters, which is the order of \<^typ>\<open>string\<close> here.
\<close>

definition localeCompare :: "string \<Rightarrow> string \<Rightarrow> int" where
  "localeCompare a b = (if a < b then - 1 else if a = b then 0 else 1)"

text \<open>
  \<^verbatim>\<open>Array.prototype.sort(cmp)\<close> is a stable sort: an element goes before the elements it
  does not compare greater than. It is modelled as the stable insertion sort.
\<close>

fun insert_cmp :: "('a \<Rightarrow> 'a \<Rightarrow> int) \<Rightarrow> 'a \<Rightarrow> 'a list \<Rightarrow> 'a list" where
  "insert_cmp cmp x [] = [x]"
| "insert_cmp cmp x (y # ys) = (if cmp x y \<le> 0 then x # y # ys else y # insert_cmp cmp x ys)"

definition sort_cmp :: "('a \<Rightarrow> 'a \<Rightarrow> int) \<Rightarrow> 'a list \<Rightarrow> 'a list" where
  "sort_cmp cmp xs = foldr (insert_cmp cmp) xs []"

text \<open>\<^verbatim>\<open>Array.prototype.join(sep)\<close> on an array of strings.\<close>

fun join :: "string \<Rightarrow> string list \<Rightarrow> string" where
  "join sep [] = []"
| "join sep [x] = x"
| "join sep (x # y # ys) = x @ sep @ join sep (y # ys)"

text \<open>
  \<^verbatim>\<open>Number.prototype.toString()\<close> of an integer: its decimal digits, after a minus sign when
  it is negative.
\<close>

definition digit :: "nat \<Rightarrow> char" where
  "digit d = ''0123456789'' ! d"

fun digits :: "nat \<Rightarrow> string" where
  "digits n = (if n < 10 then [digit n] else digits (n div 10) @ [digit (n mod 10)])"

declare digits.simps [simp del]

definition toString :: "int \<Rightarrow> string" where
  "toString n = (if n < 0 then ''-'' @ digits (nat (- n)) else digits (nat n))"

text \<open>
  \<^verbatim>\<open>Number.prototype.toFixed(f)\<close>, step by step as ECMAScript gives it: the sign is taken
  off; \<open>n\<close> is the integer for which \<open>n / 10^f\<close> is nearest to \<open>x\<close>, the larger one of two;
  its digits are padded with zeros on the left to \<open>f + 1\<close> characters, and the point goes
  before the last \<open>f\<close>. (From \<open>10^21\<close> on JavaScript prints the number in its exponent form
  instead; money amounts of that size are outside the model.)
\<close>

definition toFixed :: "rat \<Rightarrow> nat \<Rightarrow> string" where
  "toFixed x0 f =
     (let s = (if x0 < 0 then ''-'' else []);
          x = \<bar>x0\<bar>;
          n = nat \<lfloor>x * 10 ^ f + 1 / 2\<rfloor>;
          m = digits n;
          m = (if f \<noteq> 0
               then (let k = length m;
                         z = (if k \<le> f then replicate (f + 1 - k) (CHR ''0'') @ m else m);
                         k = length z
                     in take (k - f) z @ ''.'' @ drop (k - f) z)
               else m)
      in s @ m)"

text \<open>\<^verbatim>\<open>a || b\<close> on an optional string: \<open>b\<close> when \<open>a\<close> is undefined, null or empty.\<close>

definition or_else :: "string option \<Rightarrow> string \<Rightarrow> string" where
  "or_else a b = (case a of None \<Rightarrow> b | Some s \<Rightarrow> if s = [] then b else s)"

text \<open>
  \<^verbatim>\<open>parseInt(s)\<close> with no radix: white space is skipped, then an optional sign, then an
  optional \<^verbatim>\<open>0x\<close> (which selects radix 16), then the longest run of digits of the radix. With
  no digit the result is \<^verbatim>\<open>NaN\<close>, here \<^term>\<open>None\<close>. The digits give an integer, which a
  number holds exactly below \<open>2 ^ 53\<close>; the rounding of a longer entry is not modelled.
\<close>

definition isWhiteSpace :: "char \<Rightarrow> bool" where
  "isWhiteSpace c = (c \<in> set [CHR 0x09, CHR 0x0A, CHR 0x0B, CHR 0x0C, CHR 0x0D, CHR '' ''])"

definition digitValue :: "char \<Rightarrow> nat option" where
  "digitValue = map_of
     [(CHR ''0'', 0), (CHR ''1'', 1), (CHR ''2'', 2), (CHR ''3'', 3), (CHR ''4'', 4),
      (CHR ''5'', 5), (CHR ''6'', 6), (CHR ''7'', 7), (CHR ''8'', 8), (CHR ''9'', 9),
      (CHR ''a'', 10), (CHR ''b'', 11), (CHR ''c'', 12), (CHR ''d'', 13), (CHR ''e'', 14),
      (CHR ''f'', 15), (CHR ''A'', 10), (CHR ''B'', 11), (CHR ''C'', 12), (CHR ''D'', 13),
      (CHR ''E'', 14), (CHR ''F'', 15)]"

definition isRadixDigit :: "nat \<Rightarrow> char \<Rightarrow> bool" where
  "isRadixDigit R c = (case digitValue c of None \<Rightarrow> False | Some d \<Rightarrow> d < R)"

definition radixValue :: "nat \<Rightarrow> string \<Rightarrow> nat" where
  "radixValue R z = foldl (\<lambda>acc c. acc * R + (case digitValue c of None \<Rightarrow> 0 | Some d \<Rightarrow> d)) 0 z"

definition parseInt :: "string \<Rightarrow> int option" where
  "parseInt inputString =
     (let s = dropWhile isWhiteSpace inputString;
          sign = (if take 1 s = ''-'' then - 1 else 1);
          s = (if take 1 s = ''-'' \<or> take 1 s = ''+'' then drop 1 s else s);
          R = (if take 2 s = ''0x'' \<or> take 2 s = ''0X'' then 16 else 10);
          s = (if take 2 s = ''0x'' \<or> take 2 s = ''0X'' then drop 2 s else s);
          z = takeWhile (isRadixDigit R) s
      in if z = [] then None else Some (sign * int (radixValue R z)))"

text \<open>
  A number in a condition: \<^verbatim>\<open>NaN\<close> and \<^verbatim>\<open>0\<close> are falsy. \<^verbatim>\<open>n || 0\<close> is \<open>n\<close> unless \<open>n\<close> is
  falsy, and \<^verbatim>\<open>n > 0\<close> is false for \<^verbatim>\<open>NaN\<close>.
\<close>

definition falsy :: "int option \<Rightarrow> bool" where
  "falsy n = (n = None \<or> n = Some 0)"

definition or_zero :: "int option \<Rightarrow> int" where
  "or_zero n = (case n of None \<Rightarrow> 0 | Some k \<Rightarrow> k)"

definition positive :: "int option \<Rightarrow> bool" where
  "positive n = (case n of None \<Rightarrow> False | Some k \<Rightarrow> k > 0)"

text \<open>A member of a string enum is its own name.\<close>

fun RecordMode_str :: "RecordMode \<Rightarrow> string" where
  "RecordMode_str INDIVIDUAL = ''INDIVIDUAL''"
| "RecordMode_str DAILY = ''DAILY''"

fun IndividualType_str :: "IndividualType \<Rightarrow> string" where
  "IndividualType_str PARCEL = ''PARCEL''"
| "IndividualType_str COLLECTION = ''COLLECTION''"
| "IndividualType_str DAILY_FLAT = ''DAILY_FLAT''"

section \<open>CSV export (src/services/storage.ts 190-216, src/types.ts 208-234)\<close>

text \<open>
  \<^verbatim>\<open>generateCSV\<close> builds the text \<^verbatim>\<open>csvContent\<close> and hands it to the browser as a download
  named \<^verbatim>\<open>${fileName}.csv\<close>; the function here returns that file.
\<close>

record CsvFile =
  download :: string
  csvContent :: string

definition headers :: "string list" where
  "headers = [''Data'', ''Tipo'', ''Modo'', ''Qtd'', ''Valor'', ''Rotas'', ''ID'']"

definition rows :: "WorkRecord list \<Rightarrow> string list list" where
  "rows rs = map (\<lambda>r. [date r, IndividualType_str (type r), RecordMode_str (mode r),
                        toString (quantity r), toFixed (value r) 2,
                        or_else (routeNames r) ''-'', WorkRecord.id r]) rs"

definition generateCSV :: "WorkRecord list \<Rightarrow> string \<Rightarrow> CsvFile" where
  "generateCSV rs fileName =
     \<lparr>download = fileName @ ''.csv'',
      csvContent = join [CHR 0x0A] (join '','' headers # map (\<lambda>row. join '','' row) (rows rs))\<rparr>"

section \<open>The local store (src/types.ts 56-187)\<close>

text \<open>
  The browser's \<^verbatim>\<open>localStorage\<close> keeps the users under the key \<^verbatim>\<open>KEYS.USERS\<close> and the
  records under \<^verbatim>\<open>KEYS.RECORDS\<close>, as JSON. \<^verbatim>\<open>getStored...\<close> reads a list back (the empty
  list when the key is missing) and \<^verbatim>\<open>saveStored...\<close> replaces it, so the state is the two
  lists. \<^verbatim>\<open>generateUUID()\<close> and \<^verbatim>\<open>Date.now()\<close> are inputs of the operations that call them.
  An operation returns the state it leaves; one that can throw also returns its result, the
  thrown error on the left.
\<close>

record Storage =
  USERS :: "User list"
  RECORDS :: "WorkRecord list"

text \<open>
  A thrown error. \<open>Usuario_ja_existe\<close> is the \<^verbatim>\<open>Error\<close> that \<^verbatim>\<open>registerUser\<close> throws for a
  username that is taken (its message has letters outside ASCII); \<open>Error\<close> carries the
  message of any other \<^verbatim>\<open>new Error(...)\<close>; \<open>TypeError\<close> is what reading a property of
  \<^verbatim>\<open>null\<close> throws.
\<close>

datatype Error = Usuario_ja_existe | Error string | TypeError

definition getStoredUsers :: "Storage \<Rightarrow> User list" where
  "getStoredUsers st = USERS st"

definition saveStoredUsers :: "User list \<Rightarrow> Storage \<Rightarrow> Storage" where
  "saveStoredUsers users st = st\<lparr>USERS := users\<rparr>"

definition initializeStorage :: "string \<Rightarrow> nat \<Rightarrow> Storage \<Rightarrow> Storage" where
  "initializeStorage uuid now st =
     (let users = getStoredUsers st;
          adminExists = list_ex (\<lambda>u. username u = ''admin'') users
      in if \<not> adminExists
         then (let admin = \<lparr>User.id = uuid, name = ''System Admin'', username = ''admin'',
                             passwordHash = ''EVRI01'', role = ADMIN, createdAt = now\<rparr>
               in saveStoredUsers (users @ [admin]) st)
         else st)"

definition authenticate :: "string \<Rightarrow> string \<Rightarrow> UserRole \<Rightarrow> Storage \<Rightarrow> User option" where
  "authenticate username' password role' st =
     find (\<lambda>u. username u = username' \<and> passwordHash u = password \<and> role u = role')
       (getStoredUsers st)"

definition registerUser ::
  "string \<Rightarrow> string \<Rightarrow> string \<Rightarrow> string \<Rightarrow> nat \<Rightarrow> Storage \<Rightarrow> (Error + User) \<times> Storage" where
  "registerUser name' username' password uuid now st =
     (let users = getStoredUsers st
      in if list_ex (\<lambda>u. username u = username') users
         then (Inl Usuario_ja_existe, st)
         else (let newUser = \<lparr>User.id = uuid, name = name', username = username',
                               passwordHash = password, role = DRIVER, createdAt = now\<rparr>
               in (Inr newUser, saveStoredUsers (users @ [newUser]) st)))"

definition getAllDrivers :: "Storage \<Rightarrow> User list" where
  "getAllDrivers st = filter (\<lambda>u. role u = DRIVER) (getStoredUsers st)"

definition getStoredRecords :: "Storage \<Rightarrow> WorkRecord list" where
  "getStoredRecords st = RECORDS st"

definition saveStoredRecords :: "WorkRecord list \<Rightarrow> Storage \<Rightarrow> Storage" where
  "saveStoredRecords rs st = st\<lparr>RECORDS := rs\<rparr>"

definition createRecord :: "WorkRecordDraft \<Rightarrow> string \<Rightarrow> nat \<Rightarrow> Storage \<Rightarrow> Storage" where
  "createRecord record uuid now st =
     (let rs = getStoredRecords st;
          newRecord = WorkRecordDraft.extend record (WorkRecord.fields uuid now)
      in saveStoredRecords (rs @ [newRecord]) st)"

definition getUserRecords :: "string \<Rightarrow> Storage \<Rightarrow> WorkRecord list" where
  "getUserRecords userId' st =
     sort_cmp (\<lambda>a b. localeCompare (date b) (date a))
       (filter (\<lambda>r. userId r = userId') (getStoredRecords st))"

definition deleteRecord :: "string \<Rightarrow> Storage \<Rightarrow> Storage" where
  "deleteRecord recordId st =
     saveStoredRecords (filter (\<lambda>r. WorkRecord.id r \<noteq> recordId) (getStoredRecords st)) st"

text \<open>The number of stored users whose username is \<^verbatim>\<open>admin\<close>.\<close>

definition adminCount :: "Storage \<Rightarrow> nat" where
  "adminCount st = length (filter (\<lambda>u. username u = ''admin'') (USERS st))"

section \<open>The hosted store (src/services/storage.ts 19-169)\<close>

text \<open>
  storage.ts keeps the same users and records in a hosted database and reaches it through
  the Supabase client, which it imports from \<^verbatim>\<open>services/supabase\<close>; that module and the
  database are not among the sources. The client is therefore a parameter: a record of the
  calls that storage.ts makes, each a function of the state of the store. An awaited call
  answers with the pair \<^verbatim>\<open>{ data, error }\<close>; a call that writes also gives the new state.
  A filter \<^verbatim>\<open>.eq(column, v)\<close> is the predicate on rows that it stands for.
\<close>

record PostgrestError =
  code :: string
  message :: string

record 'a PostgrestResponse =
  data :: "'a option"
  error :: "PostgrestError option"

record 'db Supabase =
  users_eq_single :: "'db \<Rightarrow> (UserRow \<Rightarrow> bool) \<Rightarrow> UserRow PostgrestResponse"
  users_insert :: "'db \<Rightarrow> UserInsert \<Rightarrow> 'db \<times> UserRow PostgrestResponse"
  work_records_insert :: "'db \<Rightarrow> RecordInsert \<Rightarrow> 'db \<times> PostgrestError option"
  work_records_eq_order_date_desc ::
    "'db \<Rightarrow> (RecordRow \<Rightarrow> bool) \<Rightarrow> RecordRow list PostgrestResponse"
  work_records_delete_eq :: "'db \<Rightarrow> (RecordRow \<Rightarrow> bool) \<Rightarrow> 'db \<times> PostgrestError option"

text \<open>The mapping from the column names of a row to the fields of the interface.\<close>

definition user_of_row :: "UserRow \<Rightarrow> User" where
  "user_of_row d = \<lparr>User.id = UserRow.id d, name = UserInsert.name d,
                     username = UserInsert.username d, passwordHash = password_hash d,
                     role = UserInsert.role d, createdAt = created_at d\<rparr>"

definition record_of_row :: "RecordRow \<Rightarrow> WorkRecord" where
  "record_of_row r = \<lparr>userId = user_id r, date = RecordInsert.date r, mode = RecordInsert.mode r,
                       type = RecordInsert.type r, quantity = RecordInsert.quantity r,
                       value = RecordInsert.value r, routeNames = route_names r,
                       isTwoIDs = is_two_ids r,
                       photos = (case RecordInsert.photos r of None \<Rightarrow> [] | Some p \<Rightarrow> p),
                       id = RecordRow.id r, timestamp = RecordInsert.timestamp r\<rparr>"

text \<open>
  \<^verbatim>\<open>initializeStorage\<close> (storage.ts 21-50): an error of the lookup other than PGRST116 ends
  the seeding; otherwise the admin row is inserted when the lookup gave no row. The answer
  of the insert is not looked at.
\<close>

definition initializeStorage_hosted :: "'db Supabase \<Rightarrow> nat \<Rightarrow> 'db \<Rightarrow> 'db" where
  "initializeStorage_hosted supabase now db =
     (let lookup = users_eq_single supabase db (\<lambda>r. UserInsert.username r = ''admin'')
      in if (case error lookup of None \<Rightarrow> False | Some e \<Rightarrow> code e \<noteq> ''PGRST116'') then db
         else if data lookup = None
         then (let admin = \<lparr>UserInsert.name = ''System Admin'', UserInsert.username = ''admin'',
                             password_hash = ''EVRI01'', UserInsert.role = ADMIN,
                             created_at = now\<rparr>
               in fst (users_insert supabase db admin))
         else db)"

text \<open>\<^verbatim>\<open>registerUser\<close> (storage.ts 74-102).\<close>

definition registerUser_hosted ::
  "'db Supabase \<Rightarrow> string \<Rightarrow> string \<Rightarrow> string \<Rightarrow> nat \<Rightarrow> 'db \<Rightarrow> (Error + User) \<times> 'db" where
  "registerUser_hosted supabase name' username' password now db =
     (let existing = data (users_eq_single supabase db (\<lambda>r. UserInsert.username r = username'))
      in if existing \<noteq> None then (Inl Usuario_ja_existe, db)
         else (let newUser = \<lparr>UserInsert.name = name', UserInsert.username = username',
                               password_hash = password, UserInsert.role = DRIVER,
                               created_at = now\<rparr>;
                   (db', inserted) = users_insert supabase db newUser
               in case error inserted of
                    Some e \<Rightarrow> (Inl (Error (message e)), db')
                  | None \<Rightarrow> (case data inserted of
                               None \<Rightarrow> (Inl TypeError, db')
                             | Some d \<Rightarrow> (Inr (user_of_row d), db'))))"

text \<open>\<^verbatim>\<open>createRecord\<close> (storage.ts 124-140).\<close>

definition createRecord_hosted ::
  "'db Supabase \<Rightarrow> WorkRecordDraft \<Rightarrow> nat \<Rightarrow> 'db \<Rightarrow> (Error + unit) \<times> 'db" where
  "createRecord_hosted supabase record now db =
     (let newRecord = \<lparr>user_id = userId record, RecordInsert.date = WorkRecordDraft.date record,
                         RecordInsert.mode = WorkRecordDraft.mode record,
                         RecordInsert.type = WorkRecordDraft.type record,
                         RecordInsert.quantity = WorkRecordDraft.quantity record,
                         RecordInsert.value = WorkRecordDraft.value record,
                         route_names = routeNames record,
                         is_two_ids = WorkRecordDraft.isTwoIDs record,
                         RecordInsert.photos = Some (WorkRecordDraft.photos record),
                         RecordInsert.timestamp = now\<rparr>;
          (db', err) = work_records_insert supabase db newRecord
      in case err of
           Some e \<Rightarrow> (Inl (Error (''Erro ao salvar registro: '' @ message e)), db')
         | None \<Rightarrow> (Inr (), db'))"

text \<open>\<^verbatim>\<open>getUserRecords\<close> (storage.ts 142-164): the store filters and orders the rows.\<close>

definition getUserRecords_hosted ::
  "'db Supabase \<Rightarrow> string \<Rightarrow> 'db \<Rightarrow> Error + WorkRecord list" where
  "getUserRecords_hosted supabase userId' db =
     (let answer = work_records_eq_order_date_desc supabase db (\<lambda>r. user_id r = userId')
      in if error answer \<noteq> None then Inr []
         else (case data answer of
                 None \<Rightarrow> Inl TypeError
               | Some found \<Rightarrow> Inr (map record_of_row found)))"

text \<open>\<^verbatim>\<open>deleteRecord\<close> (storage.ts 166-169).\<close>

definition deleteRecord_hosted ::
  "'db Supabase \<Rightarrow> string \<Rightarrow> 'db \<Rightarrow> (Error + unit) \<times> 'db" where
  "deleteRecord_hosted supabase recordId db =
     (let (db', err) = work_records_delete_eq supabase db (\<lambda>r. RecordRow.id r = recordId)
      in case err of
           Some e \<Rightarrow> (Inl (Error ''Erro ao deletar registro''), db')
         | None \<Rightarrow> (Inr (), db'))"

text \<open>
  Modelled from the spec: the record store of the specification's sections 2 and 6, which
  the Supabase client of \<^verbatim>\<open>services/supabase\<close> (missing from the sources) gives access to.
  It holds the two collections \<^verbatim>\<open>users\<close> and \<^verbatim>\<open>work_records\<close> as lists of rows and offers
  insert, select by an equality filter (optionally of a single row), select of all matching
  rows, and delete. Here every call is answered: an insert appends the row under the id the
  store assigns (\<open>next_id\<close>), a single-row select gives the row when exactly one row matches
  and the error PGRST116 otherwise, the ordered select gives the matching rows with the
  later date first, and a delete removes the matching rows.
\<close>

record Database =
  users :: "UserRow list"
  work_records :: "RecordRow list"

definition single :: "'r list \<Rightarrow> 'r PostgrestResponse" where
  "single matching =
     (case matching of
        [r] \<Rightarrow> \<lparr>data = Some r, error = None\<rparr>
      | _ \<Rightarrow> \<lparr>data = None,
               error = Some \<lparr>code = ''PGRST116'', message = ''no single row''\<rparr>\<rparr>)"

definition table_store :: "string \<Rightarrow> Database Supabase" where
  "table_store next_id =
     \<lparr>users_eq_single = (\<lambda>db p. single (filter p (users db))),
      users_insert = (\<lambda>db i.
         (let d = UserInsert.extend i (UserRow.fields next_id)
          in (db\<lparr>users := users db @ [d]\<rparr>, \<lparr>data = Some d, error = None\<rparr>))),
      work_records_insert = (\<lambda>db i.
         (db\<lparr>work_records := work_records db @ [RecordInsert.extend i (RecordRow.fields next_id)]\<rparr>,
          None)),
      work_records_eq_order_date_desc = (\<lambda>db p.
         \<lparr>data = Some (sort_cmp (\<lambda>a b. localeCompare (RecordInsert.date b) (RecordInsert.date a))
                          (filter p (work_records db))),
          error = None\<rparr>),
      work_records_delete_eq = (\<lambda>db p.
         (db\<lparr>work_records := filter (\<lambda>r. \<not> p r) (work_records db)\<rparr>, None))\<rparr>"

text \<open>
  Modelled from the spec: the users and records that the rows of such a store stand for
  (section 6: the persisted names differ from the names in memory, field by field).
\<close>

definition as_Storage :: "Database \<Rightarrow> Storage" where
  "as_Storage db = \<lparr>USERS = map user_of_row (users db),
                     RECORDS = map record_of_row (work_records db)\<rparr>"

text \<open>
  Modelled from the spec: a store that is not provisioned or cannot be reached (sections 4.4
  and 7; the table is missing). Every call answers with an error and changes nothing.
\<close>

definition unreachable_store :: "'db Supabase" where
  "unreachable_store =
     \<lparr>users_eq_single = (\<lambda>db p. \<lparr>data = None,
          error = Some \<lparr>code = ''42P01'', message = ''relation does not exist''\<rparr>\<rparr>),
      users_insert = (\<lambda>db i. (db, \<lparr>data = None,
          error = Some \<lparr>code = ''42P01'', message = ''relation does not exist''\<rparr>\<rparr>)),
      work_records_insert = (\<lambda>db i.
         (db, Some \<lparr>code = ''42P01'', message = ''relation does not exist''\<rparr>)),
      work_records_eq_order_date_desc = (\<lambda>db p. \<lparr>data = None,
          error = Some \<lparr>code = ''42P01'', message = ''relation does not exist''\<rparr>\<rparr>),
      work_records_delete_eq = (\<lambda>db p.
         (db, Some \<lparr>code = ''42P01'', message = ''relation does not exist''\<rparr>))\<rparr>"

section \<open>Monthly grouping (src/App.tsx 506-523, \<^verbatim>\<open>HistoryView.groupedRecords\<close>)\<close>

text \<open>
  \<^verbatim>\<open>groups\<close> is an object used as a dictionary from month key to group; it is the list of
  its entries in the order the keys were added. The label is the month name the browser
  formats from the date of the first record of the month; the formatting function is a
  parameter. \<^verbatim>\<open>Object.values(groups)\<close> lists the groups, and the sort orders them by month
  key, the later key first. The keys are prefixes of \<^verbatim>\<open>YYYY-MM-DD\<close> dates: none is the name
  of a member that every object inherits, and none is a number, so the dictionary holds
  exactly the keys that were added, in the order they were added.
\<close>

definition add_record ::
  "(string \<Rightarrow> string) \<Rightarrow> (string \<times> MonthlyGroup) list \<Rightarrow> WorkRecord \<Rightarrow> (string \<times> MonthlyGroup) list" where
  "add_record label_of groups r =
     (let monthKey' = take 7 (date r);
          label' = label_of (date r);
          groups = (if map_of groups monthKey' = None
                    then groups @ [(monthKey', \<lparr>monthKey = monthKey', label = label',
                                                total = 0, records = []\<rparr>)]
                    else groups)
      in map (\<lambda>(k, g). if k = monthKey'
                         then (k, g\<lparr>records := records g @ [r],
                                    MonthlyGroup.total := Number_add (MonthlyGroup.total g) (value r)\<rparr>)
                         else (k, g)) groups)"

definition groupedRecords :: "(string \<Rightarrow> string) \<Rightarrow> WorkRecord list \<Rightarrow> MonthlyGroup list" where
  "groupedRecords label_of rs =
     sort_cmp (\<lambda>a b. localeCompare (monthKey b) (monthKey a))
       (map snd (foldl (add_record label_of) [] rs))"

section \<open>Saving a record from the entry form (src/App.tsx 254-332, \<^verbatim>\<open>CalculatorView\<close>)\<close>

text \<open>
  \<^verbatim>\<open>handleSave\<close> checks the form and calls \<^verbatim>\<open>createRecord\<close> once for each record it makes;
  its result here is the list of the drafts it passes to \<^verbatim>\<open>createRecord\<close>, in order, or on
  the left the message it shows instead.
\<close>

definition previewValue :: "CalculatorView \<Rightarrow> rat" where
  "previewValue v =
     (if CalculatorView.mode v = INDIVIDUAL
      then (let p = or_zero (parseInt (parcels v));
                c = or_zero (parseInt (collections v))
            in IndividualPay.total (calculateIndividual p c))
      else (let qty = or_zero (parseInt (dailyQty v))
            in calculateDaily (CalculatorView.isTwoIDs v) qty))"

definition handleSave :: "User \<Rightarrow> CalculatorView \<Rightarrow> string + WorkRecordDraft list" where
  "handleSave user v =
     (if CalculatorView.date v = '''' then Inl ''Selecione uma data''
      else if CalculatorView.mode v = INDIVIDUAL
      then (let pQty = parseInt (parcels v);
                cQty = parseInt (collections v)
            in if falsy pQty \<and> falsy cQty then Inl ''Preencha ao menos parcelas ou coletas.''
               else Inr
                 ((if positive pQty
                   then [\<lparr>userId = User.id user, date = CalculatorView.date v,
                          mode = CalculatorView.mode v, type = PARCEL,
                          quantity = or_zero pQty,
                          value = Number_multiply (rat_of_int (or_zero pQty)) (round_double 1.00),
                          routeNames = Some (routeId1 v), isTwoIDs = Some False,
                          photos = CalculatorView.photos v\<rparr>]
                   else []) @
                  (if positive cQty
                   then [\<lparr>userId = User.id user, date = CalculatorView.date v,
                          mode = CalculatorView.mode v, type = COLLECTION,
                          quantity = or_zero cQty,
                          value = Number_multiply (rat_of_int (or_zero cQty)) (round_double 0.80),
                          routeNames = Some (routeId1 v), isTwoIDs = Some False,
                          photos = CalculatorView.photos v\<rparr>]
                   else [])))
      else (let qty = or_zero (parseInt (dailyQty v))
            in if CalculatorView.isTwoIDs v \<and> (routeId1 v = '''' \<or> routeId2 v = '''')
               then Inl ''Digite os IDs das duas rotas.''
               else (let finalRouteNames = (if CalculatorView.isTwoIDs v
                                            then routeId1 v @ '' + '' @ routeId2 v
                                            else routeId1 v);
                         singleRouteName = (if \<not> CalculatorView.isTwoIDs v \<and> routeId1 v \<noteq> ''''
                                            then Some (routeId1 v) else None)
                     in Inr [\<lparr>userId = User.id user, date = CalculatorView.date v,
                              mode = CalculatorView.mode v, type = DAILY_FLAT,
                              quantity = (if CalculatorView.isTwoIDs v then qty else 1),
                              value = previewValue v,
                              routeNames = (if finalRouteNames \<noteq> '''' then Some finalRouteNames
                                            else singleRouteName),
                              isTwoIDs = Some (CalculatorView.isTwoIDs v),
                              photos = CalculatorView.photos v\<rparr>])))"

text \<open>
  The pay of a record as the specification's data model gives it: a function of the mode,
  the type, the quantity and the two-IDs flag, computed by the pay calculator. (No record is
  INDIVIDUAL and DAILY_FLAT; the pay of that combination is put at 0.)
\<close>

fun payOf :: "RecordMode \<Rightarrow> IndividualType \<Rightarrow> int \<Rightarrow> bool option \<Rightarrow> rat" where
  "payOf INDIVIDUAL PARCEL q b = parcelValue (calculateIndividual q 0)"
| "payOf INDIVIDUAL COLLECTION q b = collectionValue (calculateIndividual 0 q)"
| "payOf INDIVIDUAL DAILY_FLAT q b = 0"
| "payOf DAILY t q b = calculateDaily (b = Some True) q"

section \<open>Example data\<close>

text \<open>A parcel record with the given id, owner, date and quantity, for the examples.\<close>

definition parcel_record :: "string \<Rightarrow> string \<Rightarrow> string \<Rightarrow> int \<Rightarrow> WorkRecord" where
  "parcel_record i u d q =
     \<lparr>userId = u, date = d, mode = INDIVIDUAL, type = PARCEL, quantity = q,
      value = rat_of_int q * 1, routeNames = None, isTwoIDs = Some False, photos = [],
      id = i, timestamp = 0\<rparr>"

text \<open>A row of the table of users, for the examples.\<close>

definition user_row :: "string \<Rightarrow> string \<Rightarrow> string \<Rightarrow> UserRow" where
  "user_row i nm un = \<lparr>UserInsert.name = nm, UserInsert.username = un, password_hash = ''pw'',
                         UserInsert.role = DRIVER, created_at = 5, UserRow.id = i\<rparr>"

text \<open>A collection record, with the value that the save handler gives it.\<close>

definition collection_record :: "string \<Rightarrow> string \<Rightarrow> string \<Rightarrow> int \<Rightarrow> WorkRecord" where
  "collection_record i u d q =
     \<lparr>userId = u, date = d, mode = INDIVIDUAL, type = COLLECTION, quantity = q,
      value = Number_multiply (rat_of_int q) (round_double 0.80), routeNames = None,
      isTwoIDs = Some False, photos = [], id = i, timestamp = 0\<rparr>"

text \<open>A driver and three filled-in entry forms, for the examples.\<close>

definition example_driver :: User where
  "example_driver = \<lparr>User.id = ''u1'', name = ''Bob'', username = ''bob'', passwordHash = ''pw'',
                      role = DRIVER, createdAt = 5\<rparr>"

definition individual_form :: CalculatorView where
  "individual_form = \<lparr>CalculatorView.mode = INDIVIDUAL, CalculatorView.date = ''2024-03-05'', parcels = ''3'',
                       collections = ''5'', CalculatorView.isTwoIDs = False, dailyQty = '''', routeId1 = '''',
                       routeId2 = '''', CalculatorView.photos = []\<rparr>"

definition collection_form :: CalculatorView where
  "collection_form = \<lparr>CalculatorView.mode = INDIVIDUAL, CalculatorView.date = ''2024-03-07'', parcels = [],
                       collections = ''3'', CalculatorView.isTwoIDs = False, dailyQty = [], routeId1 = ''R'',
                       routeId2 = [], CalculatorView.photos = []\<rparr>"

definition daily_form :: CalculatorView where
  "daily_form = \<lparr>CalculatorView.mode = DAILY, CalculatorView.date = ''2024-03-06'', parcels = '''', collections = '''',
                  CalculatorView.isTwoIDs = True, dailyQty = ''150'', routeId1 = ''A'', routeId2 = ''B'',
                  CalculatorView.photos = []\<rparr>"

section \<open>The pay calculator's rate table\<close>

text \<open>
  C1. With one route ID the day rate is 180.00 whatever the quantity. With two IDs it is
  260.00 below 150 items, 300.00 from 150 to 250 items (both ends included) and 360.00 above
  250; so 149, 150, 250 and 251 items pay 260.00, 300.00, 300.00 and 360.00.
\<close>

theorem calculateDaily_tiers:
  "calculateDaily False q = 180
   \<and> (q < 150 \<longrightarrow> calculateDaily True q = 260)
   \<and> (150 \<le> q \<and> q \<le> 250 \<longrightarrow> calculateDaily True q = 300)
   \<and> (250 < q \<longrightarrow> calculateDaily True q = 360)
   \<and> calculateDaily True 149 = 260
   \<and> calculateDaily True 150 = 300
   \<and> calculateDaily True 250 = 300
   \<and> calculateDaily True 251 = 360"
  by (simp add: calculateDaily_def)

theorem calculateDaily_tiers_witness:
  "calculateDaily False 200 = 180
   \<and> (100::int) < 150 \<and> calculateDaily True 100 = 260
   \<and> (150::int) \<le> 200 \<and> (200::int) \<le> 250 \<and> calculateDaily True 200 = 300
   \<and> (250::int) < 300 \<and> calculateDaily True 300 = 360"
  using calculateDaily_tiers [of 100] calculateDaily_tiers [of 200] calculateDaily_tiers [of 300]
  by simp

section \<open>Facts about JavaScript numbers\<close>

text \<open>
  The exponent brackets its argument, so a double can be computed once the exponent is
  known (\<open>round_double_eval\<close>); an integer below \<open>2 ^ 53\<close> is a double; and away from the
  subnormal range rounding moves a number by at most one part in \<open>2 ^ 53\<close>.
\<close>

lemma pow2_int: "0 \<le> k \<Longrightarrow> rat_of_int (2 ^ nat k) = 2 powi k"
  by (simp add: power_int_nonneg_exp)

lemma expo_bounds:
  assumes "0 < a"
  shows "2 powi expo a \<le> a \<and> a < 2 powi (expo a + 1)"
proof -
  obtain n d where q: "quotient_of a = (n, d)" by (cases "quotient_of a")
  then have d: "0 < d" by (rule quotient_of_denom_pos)
  from q have a: "a = rat_of_int n / rat_of_int d" by (rule quotient_of_div)
  with assms d have n: "0 < n" by (simp add: zero_less_divide_iff)
  define bn where "bn = bitlen n"
  define bd where "bd = bitlen d"
  from bitlen_bounds [OF n] have n1: "2 ^ nat (bn - 1) \<le> n" and n2: "n < 2 ^ nat bn"
    by (simp_all add: bn_def)
  from bitlen_bounds [OF d] have d1: "2 ^ nat (bd - 1) \<le> d" and d2: "d < 2 ^ nat bd"
    by (simp_all add: bd_def)
  have bn: "1 \<le> bn" using n bitlen_eq_zero_iff [of n] bitlen_nonneg [of n] by (simp add: bn_def)
  have bd: "1 \<le> bd" using d bitlen_eq_zero_iff [of d] bitlen_nonneg [of d] by (simp add: bd_def)
  have rn1: "2 powi (bn - 1) \<le> rat_of_int n"
    using n1 bn pow2_int [of "bn - 1"] by (metis diff_ge_0_iff_ge of_int_le_iff)
  have rn2: "rat_of_int n < 2 powi bn"
    using n2 bn pow2_int [of bn] by (metis of_int_less_iff order_trans zero_le_one)
  have rd1: "2 powi (bd - 1) \<le> rat_of_int d"
    using d1 bd pow2_int [of "bd - 1"] by (metis diff_ge_0_iff_ge of_int_le_iff)
  have rd2: "rat_of_int d < 2 powi bd"
    using d2 bd pow2_int [of bd] by (metis of_int_less_iff order_trans zero_le_one)
  have dpos: "0 < rat_of_int d" using d by simp
  have lower: "2 powi (bn - bd - 1) < a"
  proof -
    have "2 powi (bn - bd - 1) * rat_of_int d < 2 powi (bn - bd - 1) * 2 powi bd"
      using rd2 by simp
    also have "\<dots> = 2 powi (bn - 1)"
      by (simp add: power_int_add [symmetric])
    also have "\<dots> \<le> rat_of_int n" by (rule rn1)
    finally show ?thesis using dpos by (simp add: a pos_less_divide_eq)
  qed
  have upper: "a < 2 powi (bn - bd + 1)"
  proof -
    have "rat_of_int n < 2 powi bn" by (rule rn2)
    also have "\<dots> = 2 powi (bn - bd + 1) * 2 powi (bd - 1)"
      by (simp add: power_int_add [symmetric])
    also have "\<dots> \<le> 2 powi (bn - bd + 1) * rat_of_int d"
      using rd1 by simp
    finally show ?thesis using dpos by (simp add: a pos_divide_less_eq)
  qed
  have e: "expo a = (if 2 powi (bn - bd) \<le> a then bn - bd else bn - bd - 1)"
    by (simp add: expo_def q bn_def bd_def)
  show ?thesis
  proof (cases "2 powi (bn - bd) \<le> a")
    case True
    with e upper show ?thesis by simp
  next
    case False
    with e lower show ?thesis by simp
  qed
qed

lemma powi2_less_imp:
  assumes "(2::rat) powi m < 2 powi n"
  shows "m < n"
proof (rule ccontr)
  assume "\<not> m < n"
  then have "n \<le> m" by simp
  then have "(2::rat) powi n \<le> 2 powi m" by (rule power_int_increasing) simp
  with assms show False by simp
qed

lemma expo_eqI:
  assumes "2 powi k \<le> a" and "a < 2 powi (k + 1)"
  shows "expo a = k"
proof -
  have "(0::rat) < 2 powi k" by (rule zero_less_power_int) simp
  from this assms(1) have pos: "0 < a" by (rule less_le_trans)
  from expo_bounds [OF pos] have b1: "2 powi expo a \<le> a" and b2: "a < 2 powi (expo a + 1)"
    by simp_all
  from b1 assms(2) have "(2::rat) powi expo a < 2 powi (k + 1)" by simp
  then have "expo a < k + 1" by (rule powi2_less_imp)
  moreover from assms(1) b2 have "(2::rat) powi k < 2 powi (expo a + 1)" by simp
  then have "k < expo a + 1" by (rule powi2_less_imp)
  ultimately show ?thesis by simp
qed

lemma round_double_eval:
  assumes "2 powi k \<le> a" and "a < 2 powi (k + 1)" and "- 1022 \<le> k"
  shows "round_double a = rat_of_int (round_even (a / 2 powi (k - 52))) * 2 powi (k - 52)"
proof -
  have "(0::rat) < 2 powi k" by (rule zero_less_power_int) simp
  from this assms(1) have pos: "0 < a" by (rule less_le_trans)
  from assms(1,2) have "expo a = k" by (rule expo_eqI)
  with pos assms(3) show ?thesis by (simp add: round_double_def max_def Let_def)
qed

lemma round_even_int: "round_even (rat_of_int n) = n"
  by (simp add: round_even_def)

lemma round_double_int:
  assumes "\<bar>n\<bar> < 2 ^ 53"
  shows "round_double (rat_of_int n) = rat_of_int n"
proof (cases "n = 0")
  case True
  then show ?thesis by (simp add: round_double_def)
next
  case False
  define a where "a = \<bar>rat_of_int n\<bar>"
  have "1 \<le> \<bar>n\<bar>" using False by simp
  then have "rat_of_int 1 \<le> rat_of_int \<bar>n\<bar>" by (simp only: of_int_le_iff)
  then have a1: "1 \<le> a" by (simp add: a_def)
  have a2: "a < 2 ^ 53" using assms unfolding a_def
    by (metis of_int_abs of_int_less_iff of_int_numeral of_int_power)
  have pos: "0 < a" using a1 by simp
  from expo_bounds [OF pos] have b1: "2 powi expo a \<le> a" and b2: "a < 2 powi (expo a + 1)"
    by simp_all
  have "(2::rat) powi 0 < 2 powi (expo a + 1)" using a1 b2 by simp
  then have "0 < expo a + 1" by (rule powi2_less_imp)
  then have e0: "0 \<le> expo a" by simp
  have "(2::rat) powi expo a < 2 powi 53" using b1 a2 by simp
  then have "expo a < 53" by (rule powi2_less_imp)
  then have e53: "expo a \<le> 52" by simp
  define m where "m = nat (52 - expo a)"
  have e: "max (expo a) (- 1022) - 52 = - int m" using e0 e53 by (simp add: m_def max_def)
  have pm: "(2::rat) powi (- int m) = 1 / 2 ^ m" by (simp add: power_int_minus field_simps)
  have "a / 2 powi (- int m) = rat_of_int (\<bar>n\<bar> * 2 ^ m)" by (simp add: pm a_def)
  then have "round_even (a / 2 powi (- int m)) = \<bar>n\<bar> * 2 ^ m" by (simp only: round_even_int)
  then have "round_double (rat_of_int n) = sgn (rat_of_int n) * rat_of_int (\<bar>n\<bar> * 2 ^ m) * (1 / 2 ^ m)"
    using False e by (simp add: round_double_def a_def [symmetric] pm Let_def)
  also have "\<dots> = sgn (rat_of_int n) * \<bar>rat_of_int n\<bar>" by simp
  also have "\<dots> = rat_of_int n" by (simp add: sgn_mult_abs)
  finally show ?thesis .
qed

lemma round_even_err: "\<bar>rat_of_int (round_even q) - q\<bar> \<le> 1 / 2"
proof -
  have "rat_of_int \<lfloor>q\<rfloor> \<le> q" and "q < rat_of_int \<lfloor>q\<rfloor> + 1" by linarith+
  then show ?thesis by (simp add: round_even_def Let_def)
qed

lemma round_double_err:
  assumes "2 powi (- 1022) \<le> a"
  shows "\<bar>round_double a - a\<bar> \<le> a / 2 ^ 53"
proof -
  have "(0::rat) < 2 powi (- 1022)" by (rule zero_less_power_int) simp
  from this assms have pos: "0 < a" by (rule less_le_trans)
  define k where "k = expo a"
  from expo_bounds [OF pos] have b1: "2 powi k \<le> a" and b2: "a < 2 powi (k + 1)"
    by (simp_all add: k_def)
  from assms b2 have "(2::rat) powi (- 1022) < 2 powi (k + 1)" by simp
  then have "- 1022 < k + 1" by (rule powi2_less_imp)
  then have k: "- 1022 \<le> k" by simp
  define w where "w = (2::rat) powi (k - 52)"
  have w: "0 < w" unfolding w_def by (rule zero_less_power_int) simp
  define R where "R = rat_of_int (round_even (a / w))"
  have rd: "round_double a = R * w"
    using round_double_eval [OF b1 b2 k] by (simp add: R_def w_def)
  have "\<bar>R - a / w\<bar> \<le> 1 / 2" unfolding R_def by (rule round_even_err)
  then have "\<bar>R - a / w\<bar> * w \<le> 1 / 2 * w" using w by (simp only: mult_le_cancel_right_pos)
  moreover have "\<bar>R - a / w\<bar> * w = \<bar>R * w - a\<bar>"
  proof -
    have "(R - a / w) * w = R * w - a" using w by (simp add: left_diff_distrib)
    then have "\<bar>R * w - a\<bar> = \<bar>(R - a / w) * w\<bar>" by simp
    also have "\<dots> = \<bar>R - a / w\<bar> * \<bar>w\<bar>" by (rule abs_mult)
    finally show ?thesis using w by simp
  qed
  ultimately have e1: "\<bar>R * w - a\<bar> \<le> w / 2" by simp
  have "w = 2 powi k / 2 ^ 52" unfolding w_def by (simp add: power_int_diff)
  with b1 have "w \<le> a / 2 ^ 52" by (simp add: divide_right_mono)
  then have "w / 2 \<le> a / 2 ^ 53" by simp
  with e1 rd show ?thesis by simp
qed

lemma floor_rat_numeral:
  "\<lfloor>(numeral a :: rat) / numeral b\<rfloor> = numeral a div numeral b"
  by (metis floor_divide_of_int_eq of_int_numeral)

lemma round_double_0: "round_double 0 = 0"
  by (simp add: round_double_def)

lemma round_double_1: "round_double 1 = 1"
  using round_double_int [of 1] by simp

lemma round_double_numeral:
  "(numeral w :: int) < 2 ^ 53 \<Longrightarrow> round_double (numeral w) = numeral w"
  using round_double_int [of "numeral w"] by simp

lemma round_double_4_5: "round_double (4 / 5) = 3602879701896397 / 4503599627370496"
  using round_double_eval [of "- 1" "4 / 5"]
  by (simp add: round_even_def power_int_minus floor_rat_numeral)

lemma literals: "round_double 1.00 = 1 \<and> round_double 0.80 = 3602879701896397 / 2 ^ 52"
  by (simp add: round_double_1 round_double_4_5)

lemma Number_multiply_1:
  "\<bar>n\<bar> < 2 ^ 53 \<Longrightarrow> Number_multiply (rat_of_int n) (round_double 1.00) = rat_of_int n"
  using round_double_int [of n] by (simp add: Number_multiply_def round_double_1)

lemma Number_add_int:
  "\<bar>m + n\<bar> < 2 ^ 53 \<Longrightarrow> Number_add (rat_of_int m) (rat_of_int n) = rat_of_int (m + n)"
  using round_double_int [of "m + n"] by (simp add: Number_add_def)

lemma round_double_rel:
  assumes "0 \<le> n" and that: "1 / 2 \<le> b"
  shows "\<bar>round_double (rat_of_int n * b) - rat_of_int n * b\<bar> \<le> rat_of_int n * b / 2 ^ 53"
proof (cases "n = 0")
  case True
  then show ?thesis by (simp add: round_double_def)
next
  case False
  with assms have "1 \<le> n" by simp
  then have "rat_of_int 1 \<le> rat_of_int n" by (simp only: of_int_le_iff)
  then have "1 * (1 / 2) \<le> rat_of_int n * b" using that by (intro mult_mono) simp_all
  moreover have "(2::rat) powi (- 1022) \<le> 1 / 2"
    using power_int_increasing [of "- 1022" "- 1" "2::rat"] by simp
  ultimately have "2 powi (- 1022) \<le> rat_of_int n * b" by simp
  then show ?thesis by (rule round_double_err)
qed

lemma collection_bound:
  assumes "0 \<le> c"
  shows "\<bar>Number_multiply (rat_of_int c) (round_double 0.80) - rat_of_int c * (4 / 5)\<bar>
         \<le> rat_of_int c * (4 / 5) / 2 ^ 52"
proof -
  define C where "C = rat_of_int c"
  define v where "v = round_double (C * (3602879701896397 / 2 ^ 52))"
  have C: "0 \<le> C" using assms by (simp add: C_def)
  have "\<bar>v - C * (3602879701896397 / 2 ^ 52)\<bar> \<le> C * (3602879701896397 / 2 ^ 52) / 2 ^ 53"
    unfolding v_def C_def using assms by (rule round_double_rel) simp
  then have "v - C * (3602879701896397 / 2 ^ 52) \<le> C * (3602879701896397 / 2 ^ 52) / 2 ^ 53"
    and "C * (3602879701896397 / 2 ^ 52) - v \<le> C * (3602879701896397 / 2 ^ 52) / 2 ^ 53"
    by (simp_all only: abs_le_iff minus_diff_eq)
  with C have "v - C * (4 / 5) \<le> C * (4 / 5) / 2 ^ 52" and "C * (4 / 5) - v \<le> C * (4 / 5) / 2 ^ 52"
    by simp_all
  then have "\<bar>v - C * (4 / 5)\<bar> \<le> C * (4 / 5) / 2 ^ 52"
    by (simp only: abs_le_iff minus_diff_eq)
  then show ?thesis by (simp add: Number_multiply_def round_double_4_5 v_def C_def)
qed

lemma total_bound:
  assumes "0 \<le> p" and "0 \<le> c"
  shows "\<bar>Number_add (Number_multiply (rat_of_int p) (round_double 1.00))
                     (Number_multiply (rat_of_int c) (round_double 0.80))
          - (rat_of_int p + rat_of_int c * (4 / 5))\<bar>
         \<le> (rat_of_int p + rat_of_int c * (4 / 5)) / 2 ^ 51"
proof -
  define P where "P = rat_of_int p"
  define C where "C = rat_of_int c"
  define pv where "pv = Number_multiply P (round_double 1.00)"
  define cv where "cv = Number_multiply C (round_double 0.80)"
  have P: "0 \<le> P" and C: "0 \<le> C" using assms by (simp_all add: P_def C_def)
  have "\<bar>round_double (rat_of_int p * 1) - rat_of_int p * 1\<bar> \<le> rat_of_int p * 1 / 2 ^ 53"
    using assms(1) by (rule round_double_rel) simp
  then have "\<bar>pv - P\<bar> \<le> P / 2 ^ 53"
    by (simp add: pv_def P_def Number_multiply_def round_double_1)
  then have p1: "pv - P \<le> P / 2 ^ 53" and p2: "P - pv \<le> P / 2 ^ 53"
    by (simp_all only: abs_le_iff minus_diff_eq)
  have "\<bar>cv - C * (4 / 5)\<bar> \<le> C * (4 / 5) / 2 ^ 52"
    unfolding cv_def C_def using assms(2) by (rule collection_bound)
  then have c1: "cv - C * (4 / 5) \<le> C * (4 / 5) / 2 ^ 52"
    and c2: "C * (4 / 5) - cv \<le> C * (4 / 5) / 2 ^ 52"
    by (simp_all only: abs_le_iff minus_diff_eq)
  have "\<bar>round_double (pv + cv) - (P + C * (4 / 5))\<bar> \<le> (P + C * (4 / 5)) / 2 ^ 51"
  proof (cases "p = 0 \<and> c = 0")
    case True
    then have "pv = 0" and "cv = 0"
      by (simp_all add: pv_def cv_def P_def C_def Number_multiply_def round_double_def)
    with True show ?thesis by (simp add: P_def C_def round_double_def)
  next
    case False
    with assms have "1 \<le> p \<or> 1 \<le> c" by auto
    then have "rat_of_int 1 \<le> rat_of_int p \<or> rat_of_int 1 \<le> rat_of_int c"
      by (simp only: of_int_le_iff)
    then have "1 \<le> P \<or> 1 \<le> C" by (simp add: P_def C_def)
    with P C p2 c2 have "1 / 2 \<le> pv + cv" by auto
    moreover have "(2::rat) powi (- 1022) \<le> 1 / 2"
      using power_int_increasing [of "- 1022" "- 1" "2::rat"] by simp
    ultimately have "2 powi (- 1022) \<le> pv + cv" by simp
    then have "\<bar>round_double (pv + cv) - (pv + cv)\<bar> \<le> (pv + cv) / 2 ^ 53"
      by (rule round_double_err)
    then have t1: "round_double (pv + cv) - (pv + cv) \<le> (pv + cv) / 2 ^ 53"
      and t2: "(pv + cv) - round_double (pv + cv) \<le> (pv + cv) / 2 ^ 53"
      by (simp_all only: abs_le_iff minus_diff_eq)
    from P C p1 p2 c1 c2 t1 t2
    have "round_double (pv + cv) - (P + C * (4 / 5)) \<le> (P + C * (4 / 5)) / 2 ^ 51"
      and "(P + C * (4 / 5)) - round_double (pv + cv) \<le> (P + C * (4 / 5)) / 2 ^ 51"
      by simp_all
    then show ?thesis by (simp only: abs_le_iff minus_diff_eq)
  qed
  then show ?thesis by (simp add: Number_add_def pv_def cv_def P_def C_def)
qed

lemma foldl_Number_add_exact:
  "(\<forall>x\<in>set xs. x \<in> \<int> \<and> 0 \<le> x) \<Longrightarrow> sum_list xs < 2 ^ 53 \<Longrightarrow>
     foldl Number_add 0 xs = sum_list xs \<and> sum_list xs \<in> \<int> \<and> 0 \<le> sum_list xs"
proof (induction xs rule: rev_induct)
  case Nil
  show ?case by simp
next
  case (snoc x xs)
  from snoc.prems(1) have x: "x \<in> \<int>" "0 \<le> x" and xs: "\<forall>x\<in>set xs. x \<in> \<int> \<and> 0 \<le> x"
    by simp_all
  from snoc.prems(2) x(2) have "sum_list xs < 2 ^ 53" by simp
  with snoc.IH xs have ih: "foldl Number_add 0 xs = sum_list xs"
    and int: "sum_list xs \<in> \<int>" and nonneg: "0 \<le> sum_list xs"
    by simp_all
  from int x(1) have "sum_list xs + x \<in> \<int>" by (rule Ints_add)
  then obtain n where n: "sum_list xs + x = rat_of_int n" by (rule Ints_cases)
  with nonneg x(2) snoc.prems(2) have "0 \<le> rat_of_int n" and "rat_of_int n < 2 ^ 53" by simp_all
  then have "0 \<le> n" and "n < 2 ^ 53"
    by (simp, metis of_int_less_iff of_int_numeral of_int_power)
  then have "\<bar>n\<bar> < 2 ^ 53" by simp
  then have "round_double (rat_of_int n) = rat_of_int n" by (rule round_double_int)
  with n have "Number_add (sum_list xs) x = sum_list xs + x" by (simp add: Number_add_def)
  with ih int x(1) nonneg x(2) show ?case by simp
qed

text \<open>A positive quantity is paid at least a half.\<close>

lemma parcel_half:
  assumes "0 < q"
  shows "1 \<le> Number_multiply (rat_of_int q) (round_double 1) * 2"
proof -
  from assms have "1 \<le> q" by simp
  then have q: "rat_of_int 1 \<le> rat_of_int q" by (simp only: of_int_le_iff)
  from assms have "0 \<le> q" by simp
  then have "\<bar>round_double (rat_of_int q * 1) - rat_of_int q * 1\<bar> \<le> rat_of_int q * 1 / 2 ^ 53"
    by (rule round_double_rel) simp
  then have "rat_of_int q - round_double (rat_of_int q) \<le> rat_of_int q / 2 ^ 53"
    by (simp only: abs_le_iff minus_diff_eq mult_1_right)
  with q show ?thesis by (simp add: Number_multiply_def round_double_1)
qed

lemma collection_half:
  assumes "0 < q"
  shows "1 \<le> Number_multiply (rat_of_int q) (round_double (4 / 5)) * 2"
proof -
  from assms have "1 \<le> q" by simp
  then have q: "rat_of_int 1 \<le> rat_of_int q" by (simp only: of_int_le_iff)
  from assms have "0 \<le> q" by simp
  then have "\<bar>Number_multiply (rat_of_int q) (round_double 0.80) - rat_of_int q * (4 / 5)\<bar>
         \<le> rat_of_int q * (4 / 5) / 2 ^ 52"
    by (rule collection_bound)
  then have "rat_of_int q * (4 / 5) - Number_multiply (rat_of_int q) (round_double 0.80)
             \<le> rat_of_int q * (4 / 5) / 2 ^ 52"
    by (simp only: abs_le_iff minus_diff_eq)
  with q show ?thesis by simp
qed

text \<open>
  A sum of amounts of at least a half, added one by one, is within \<open>n\<close> parts in \<open>2 ^ 52\<close>
  of the exact sum, for \<open>n\<close> amounts.
\<close>

lemma foldl_Number_add_near:
  assumes "\<forall>x\<in>set xs. 1 / 2 \<le> x"
  shows "\<bar>foldl Number_add 0 xs - sum_list xs\<bar> \<le> ((1 + 1 / 2 ^ 53) ^ length xs - 1) * sum_list xs
         \<and> 0 \<le> foldl Number_add 0 xs"
  using assms
proof (induction xs rule: rev_induct)
  case Nil
  show ?case by simp
next
  case (snoc x xs)
  define s where "s = foldl Number_add 0 xs"
  define S where "S = sum_list xs"
  define A where "A = ((1::rat) + 1 / 2 ^ 53) ^ length xs"
  define u where "u = (1::rat) / 2 ^ 53"
  define t where "t = round_double (s + x)"
  from snoc.prems have x: "1 / 2 \<le> x" and xs: "\<forall>x\<in>set xs. 1 / 2 \<le> x" by simp_all
  from snoc.IH [OF xs] have ih: "\<bar>s - S\<bar> \<le> (A - 1) * S" and s0: "0 \<le> s"
    by (simp_all add: s_def S_def A_def)
  have S0: "0 \<le> S" unfolding S_def using xs by (intro sum_list_nonneg) force
  have A1: "1 \<le> A" unfolding A_def by (rule one_le_power) simp
  have u0: "0 \<le> u" by (simp add: u_def)
  have "(2::rat) powi (- 1022) \<le> 1 / 2"
    using power_int_increasing [of "- 1022" "- 1" "2::rat"] by simp
  with x s0 have "2 powi (- 1022) \<le> s + x" by simp
  then have "\<bar>t - (s + x)\<bar> \<le> (s + x) / 2 ^ 53" unfolding t_def by (rule round_double_err)
  then have ty: "\<bar>t - (s + x)\<bar> \<le> u * (s + x)" by (simp add: u_def)
  from ih have "s - S \<le> (A - 1) * S" by (simp only: abs_le_iff)
  then have "s \<le> A * S" by (simp add: algebra_simps)
  moreover have "x \<le> A * x" using A1 x by (simp add: mult_le_cancel_right1)
  ultimately have "s + x \<le> A * (S + x)" by (simp add: algebra_simps)
  with u0 have "u * (s + x) \<le> u * (A * (S + x))" by (rule mult_left_mono [rotated])
  with ty have b1: "\<bar>t - (s + x)\<bar> \<le> u * (A * (S + x))" by simp
  have "(A - 1) * S \<le> (A - 1) * (S + x)" using A1 x by (intro mult_left_mono) simp_all
  with ih have b2: "\<bar>s - S\<bar> \<le> (A - 1) * (S + x)" by simp
  have "\<bar>t - (S + x)\<bar> \<le> \<bar>t - (s + x)\<bar> + \<bar>s - S\<bar>" by simp
  with b1 b2 have "\<bar>t - (S + x)\<bar> \<le> u * (A * (S + x)) + (A - 1) * (S + x)" by simp
  also have "\<dots> = (A * (1 + u) - 1) * (S + x)" by (simp add: algebra_simps)
  finally have near: "\<bar>t - (S + x)\<bar> \<le> (A * (1 + u) - 1) * (S + x)" .
  from ty have "(s + x) - t \<le> u * (s + x)" by (simp only: abs_le_iff minus_diff_eq)
  moreover have "u * (s + x) \<le> 1 * (s + x)" using s0 x by (intro mult_right_mono) (simp_all add: u_def)
  ultimately have t0: "0 \<le> t" by simp
  have fold: "foldl Number_add 0 (xs @ [x]) = t"
    unfolding t_def s_def by (simp add: Number_add_def)
  have sum: "sum_list (xs @ [x]) = S + x" by (simp add: S_def)
  have pow: "(1 + 1 / 2 ^ 53) ^ length (xs @ [x]) = A * (1 + u)" by (simp add: A_def u_def)
  from near t0 show ?case unfolding fold sum pow by blast
qed


lemma power_near_1:
  fixes u :: rat
  assumes "0 \<le> u" and "2 * (of_nat n * u) \<le> 1"
  shows "(1 + u) ^ n - 1 \<le> 2 * (of_nat n * u)"
proof -
  have inv: "(1 + u) ^ k * (1 - of_nat k * u) \<le> 1" for k
  proof (induction k)
    case 0
    show ?case by simp
  next
    case (Suc k)
    have "(1 + u) * (1 - of_nat (Suc k) * u) = (1 - of_nat k * u) - of_nat (Suc k) * (u * u)"
      by (simp add: algebra_simps)
    also have "\<dots> \<le> 1 - of_nat k * u" by simp
    finally have "(1 + u) ^ k * ((1 + u) * (1 - of_nat (Suc k) * u)) \<le> (1 + u) ^ k * (1 - of_nat k * u)"
      using assms(1) by (intro mult_left_mono) simp_all
    also note Suc
    finally have "(1 + u) ^ k * ((1 + u) * (1 - of_nat (Suc k) * u)) \<le> 1" .
    moreover have "(1 + u) ^ Suc k * (1 - of_nat (Suc k) * u)
                   = (1 + u) ^ k * ((1 + u) * (1 - of_nat (Suc k) * u))"
      by (simp only: power_Suc2 mult.assoc)
    ultimately show ?case by (simp only:)
  qed
  define z where "z = of_nat n * u"
  define P where "P = (1 + u) ^ n"
  have z: "0 \<le> z" "2 * z \<le> 1" using assms by (simp_all add: z_def)
  have P: "P * (1 - z) \<le> 1" using inv [of n] by (simp add: P_def z_def)
  have P1: "1 \<le> P" unfolding P_def using assms(1) by (intro one_le_power) simp
  have "(1 + 2 * z) * (1 - z) = 1 + z * (1 - 2 * z)" by (simp add: algebra_simps)
  moreover have "0 \<le> z * (1 - 2 * z)" using z by (intro mult_nonneg_nonneg) simp_all
  ultimately have "1 \<le> (1 + 2 * z) * (1 - z)" by simp
  with P have "P * (1 - z) \<le> (1 + 2 * z) * (1 - z)" by simp
  moreover have "0 < 1 - z" using z by simp
  ultimately have "P \<le> 1 + 2 * z" by (simp only: mult_le_cancel_right_pos)
  then show ?thesis by (simp add: P_def z_def)
qed

lemma foldl_Number_add_parts:
  assumes "\<forall>x\<in>set xs. 1 / 2 \<le> x" and "length xs \<le> 2 ^ 52"
  shows "\<bar>foldl Number_add 0 xs - sum_list xs\<bar> \<le> of_nat (length xs) * sum_list xs / 2 ^ 52"
proof -
  have S0: "0 \<le> sum_list xs" using assms(1) by (intro sum_list_nonneg) force
  from assms(2) have "rat_of_nat (length xs) \<le> rat_of_nat (2 ^ 52)" by (simp only: of_nat_le_iff)
  then have "2 * (rat_of_nat (length xs) * (1 / 2 ^ 53)) \<le> 1" by simp
  then have "(1 + 1 / 2 ^ 53) ^ length xs - 1 \<le> 2 * (rat_of_nat (length xs) * (1 / 2 ^ 53))"
    by (intro power_near_1) simp_all
  then have "((1 + 1 / 2 ^ 53) ^ length xs - 1) * sum_list xs
             \<le> 2 * (rat_of_nat (length xs) * (1 / 2 ^ 53)) * sum_list xs"
    using S0 by (rule mult_right_mono)
  with foldl_Number_add_near [OF assms(1)]
  have "\<bar>foldl Number_add 0 xs - sum_list xs\<bar>
        \<le> 2 * (rat_of_nat (length xs) * (1 / 2 ^ 53)) * sum_list xs"
    by simp
  then show ?thesis by simp
qed

section \<open>The individual rates\<close>

text \<open>
  C2. For all integers \<open>p\<close> and \<open>c\<close> (so for all non-negative ones), \<open>calculateIndividual p c\<close>
  returns \<open>parcelValue = p * 1.00\<close>, \<open>collectionValue = c * 0.80\<close> and
  \<open>total = parcelValue + collectionValue\<close>, where the literals, the products and the sum
  are those of JavaScript numbers: \<open>1.00\<close> is 1, \<open>0.80\<close> is the double
  \<open>3602879701896397 / 2 ^ 52\<close>, and each product and the sum is rounded to the nearest
  double. The function is a total function of its two arguments: it has no error result,
  and reads no state. The parcel value is \<open>p\<close> itself when \<open>\<bar>p\<bar> < 2 ^ 53\<close>. For non-negative
  \<open>p\<close> and \<open>c\<close> the collection value is within one part in \<open>2 ^ 52\<close> of \<open>4 c / 5\<close> and the
  total within one part in \<open>2 ^ 51\<close> of \<open>p + 4 c / 5\<close>; they need not be equal to them: three
  collections give \<open>5404319552844596 / 2 ^ 51\<close>, which prints as 2.4000000000000004.
\<close>

theorem calculateIndividual_values:
  "parcelValue (calculateIndividual p c) = Number_multiply (rat_of_int p) (round_double 1.00)
   \<and> collectionValue (calculateIndividual p c)
       = Number_multiply (rat_of_int c) (round_double 0.80)
   \<and> IndividualPay.total (calculateIndividual p c)
       = Number_add (parcelValue (calculateIndividual p c))
           (collectionValue (calculateIndividual p c))
   \<and> IndividualPay.total (calculateIndividual p c)
       = Number_add (Number_multiply (rat_of_int p) (round_double 1.00))
           (Number_multiply (rat_of_int c) (round_double 0.80))
   \<and> round_double 1.00 = 1
   \<and> round_double 0.80 = 3602879701896397 / 2 ^ 52
   \<and> (\<bar>p\<bar> < 2 ^ 53 \<longrightarrow> parcelValue (calculateIndividual p c) = rat_of_int p)
   \<and> (0 \<le> p \<and> 0 \<le> c \<longrightarrow>
        \<bar>collectionValue (calculateIndividual p c) - rat_of_int c * (4 / 5)\<bar>
          \<le> rat_of_int c * (4 / 5) / 2 ^ 52
        \<and> \<bar>IndividualPay.total (calculateIndividual p c)
             - (rat_of_int p + rat_of_int c * (4 / 5))\<bar>
          \<le> (rat_of_int p + rat_of_int c * (4 / 5)) / 2 ^ 51)
   \<and> collectionValue (calculateIndividual 0 3) = 5404319552844596 / 2 ^ 51
   \<and> IndividualPay.total (calculateIndividual 0 3) = 5404319552844596 / 2 ^ 51"
proof -
  have three: "round_double (10808639105689191 / 4503599627370496)
               = 1351079888211149 / 562949953421312"
    using round_double_eval [of 1 "10808639105689191 / 4503599627370496"]
    by (simp add: round_even_def power_int_minus floor_rat_numeral)
  have again: "round_double (1351079888211149 / 562949953421312)
               = 1351079888211149 / 562949953421312"
    using round_double_eval [of 1 "1351079888211149 / 562949953421312"]
    by (simp add: round_even_def power_int_minus floor_rat_numeral)
  have vals: "parcelValue (calculateIndividual p c)
        = Number_multiply (rat_of_int p) (round_double 1.00)"
    "collectionValue (calculateIndividual p c)
        = Number_multiply (rat_of_int c) (round_double 0.80)"
    "IndividualPay.total (calculateIndividual p c)
       = Number_add (parcelValue (calculateIndividual p c))
           (collectionValue (calculateIndividual p c))"
    by (simp_all add: calculateIndividual_def Let_def)
  have sum: "IndividualPay.total (calculateIndividual p c)
       = Number_add (Number_multiply (rat_of_int p) (round_double 1.00))
           (Number_multiply (rat_of_int c) (round_double 0.80))"
    by (simp add: calculateIndividual_def Let_def)
  have exact: "parcelValue (calculateIndividual p c) = rat_of_int p" if "\<bar>p\<bar> < 2 ^ 53"
    unfolding vals using that by (rule Number_multiply_1)
  have near: "\<bar>collectionValue (calculateIndividual p c) - rat_of_int c * (4 / 5)\<bar>
          \<le> rat_of_int c * (4 / 5) / 2 ^ 52
        \<and> \<bar>IndividualPay.total (calculateIndividual p c)
             - (rat_of_int p + rat_of_int c * (4 / 5))\<bar>
          \<le> (rat_of_int p + rat_of_int c * (4 / 5)) / 2 ^ 51" if "0 \<le> p \<and> 0 \<le> c"
    unfolding vals using that collection_bound [of c] total_bound [of p c] by simp
  have "collectionValue (calculateIndividual 0 3) = 5404319552844596 / 2 ^ 51"
    and "IndividualPay.total (calculateIndividual 0 3) = 5404319552844596 / 2 ^ 51"
    by (simp_all add: calculateIndividual_def Let_def Number_multiply_def Number_add_def
        round_double_0 round_double_1 round_double_4_5 three again)
  with vals sum exact near literals show ?thesis by blast
qed

theorem calculateIndividual_values_witness:
  "\<bar>3::int\<bar> < 2 ^ 53 \<and> (0::int) \<le> 3 \<and> (0::int) \<le> 5
   \<and> parcelValue (calculateIndividual 3 5) = 3
   \<and> collectionValue (calculateIndividual 3 5) = 4
   \<and> IndividualPay.total (calculateIndividual 3 5) = 7
   \<and> \<bar>collectionValue (calculateIndividual 3 5) - rat_of_int 5 * (4 / 5)\<bar>
        \<le> rat_of_int 5 * (4 / 5) / 2 ^ 52
   \<and> \<bar>IndividualPay.total (calculateIndividual 3 5) - (rat_of_int 3 + rat_of_int 5 * (4 / 5))\<bar>
        \<le> (rat_of_int 3 + rat_of_int 5 * (4 / 5)) / 2 ^ 51"
proof -
  have five: "round_double (18014398509481985 / 4503599627370496) = 4"
    using round_double_eval [of 2 "18014398509481985 / 4503599627370496"]
    by (simp add: round_even_def power_int_minus floor_rat_numeral)
  from calculateIndividual_values [of 3 5] show ?thesis
    by (simp add: Number_multiply_def Number_add_def round_double_1 round_double_4_5
        round_double_numeral five)
qed

section \<open>Facts about the built-ins\<close>

lemma digits_small: "n < 10 \<Longrightarrow> digits n = [digit n]"
  by (subst digits.simps) simp

lemma digits_large: "10 \<le> n \<Longrightarrow> digits n = digits (n div 10) @ [digit (n mod 10)]"
  by (subst digits.simps) simp

lemma length_digits_pos: "Suc 0 \<le> length (digits n)"
  by (subst digits.simps) simp

lemma digits_hundreds:
  assumes "100 \<le> n"
  shows "digits n = digits (n div 100) @ [digit (n div 10 mod 10), digit (n mod 10)]"
proof -
  from assms have a: "10 \<le> n" and b: "10 \<le> n div 10" by auto
  have "n div 10 div 10 = n div 100" by (simp add: div_mult2_eq)
  then show ?thesis by (simp add: digits_large [OF a] digits_large [OF b])
qed

lemma length_digits_3: "100 \<le> n \<Longrightarrow> 3 \<le> length (digits n)"
  using length_digits_pos [of "n div 100"] by (simp add: digits_hundreds)

text \<open>The padding and the placing of the point, for two fraction digits.\<close>

lemma toFixed_2_point:
  fixes n :: nat
  defines "m \<equiv> digits n"
  shows "(let k = length m;
              z = (if k \<le> 2 then replicate (2 + 1 - k) (CHR ''0'') @ m else m);
              k = length z
          in take (k - 2) z @ ''.'' @ drop (k - 2) z)
         = digits (n div 100) @ ''.'' @ [digit (n div 10 mod 10), digit (n mod 10)]"
proof -
  consider "n < 10" | "10 \<le> n" "n < 100" | "100 \<le> n" by linarith
  then show ?thesis
  proof cases
    case 1
    then show ?thesis
      by (simp add: m_def digits_small Let_def numeral_3_eq_3 digit_def)
  next
    case 2
    then show ?thesis
      by (simp add: m_def digits_small digits_large Let_def digit_def)
  next
    case 3
    from length_digits_3 [OF 3] have "\<not> length (digits n) \<le> 2" by simp
    then show ?thesis
      by (simp add: m_def Let_def digits_hundreds [OF 3])
  qed
qed

lemma toFixed_2:
  "toFixed x 2 = (if x < 0 then ''-'' else []) @ digits (nat \<lfloor>\<bar>x\<bar> * 100 + 1 / 2\<rfloor> div 100) @ ''.''
      @ [digit (nat \<lfloor>\<bar>x\<bar> * 100 + 1 / 2\<rfloor> div 10 mod 10), digit (nat \<lfloor>\<bar>x\<bar> * 100 + 1 / 2\<rfloor> mod 10)]"
  using toFixed_2_point [of "nat \<lfloor>\<bar>x\<bar> * 100 + 1 / 2\<rfloor>"]
  by (simp add: toFixed_def Let_def)

lemma toFixed_2_nearest:
  "\<bar>rat_of_nat (nat \<lfloor>\<bar>x\<bar> * 100 + 1 / 2\<rfloor>) / 100 - \<bar>x\<bar>\<bar> \<le> 1 / 200"
proof -
  define y where "y = \<bar>x\<bar> * 100 + 1 / 2"
  define f where "f = rat_of_int \<lfloor>y\<rfloor>"
  have nn: "0 \<le> \<lfloor>y\<rfloor>" by (simp add: y_def)
  have a: "f \<le> y" unfolding f_def by (rule of_int_floor_le)
  have b: "y < f + 1" unfolding f_def by linarith
  have c: "rat_of_nat (nat \<lfloor>y\<rfloor>) = f" using nn by (simp add: f_def)
  have "\<bar>f / 100 - \<bar>x\<bar>\<bar> \<le> 1 / 200"
    using a b unfolding y_def abs_le_iff by linarith
  then show ?thesis using c by (simp add: y_def)
qed

lemma join_Cons: "join sep (x # xs) = x @ concat (map (\<lambda>y. sep @ y) xs)"
  by (induction xs arbitrary: x) simp_all

lemma csvContent_lines:
  "csvContent (generateCSV rs fileName) =
     join '','' headers @ concat (map (\<lambda>row. CHR 0x0A # join '','' row) (rows rs))"
  by (simp add: generateCSV_def join_Cons comp_def)

section \<open>The CSV table\<close>

text \<open>
  C4. For every list of records the CSV text is the header line
  \<^verbatim>\<open>Data,Tipo,Modo,Qtd,Valor,Rotas,ID\<close> followed, for each record in input order, by a line
  break and the record's seven fields joined by commas. The Valor field is the value with
  exactly two digits after the point, rounded to the nearest hundredth; the Rotas field is
  \<^verbatim>\<open>-\<close> when \<open>routeNames\<close> is absent. The record of the specification's example gives the
  line \<^verbatim>\<open>2024-03-05,PARCEL,INDIVIDUAL,3,3.00,-,abc\<close>.
\<close>

theorem generateCSV_table:
  "csvContent (generateCSV rs fileName) =
     ''Data,Tipo,Modo,Qtd,Valor,Rotas,ID'' @
     concat (map (\<lambda>r. CHR 0x0A #
        date r @ '','' @ IndividualType_str (type r) @ '','' @ RecordMode_str (mode r) @ '','' @
        toString (quantity r) @ '','' @ toFixed (value r) 2 @ '','' @
        or_else (routeNames r) ''-'' @ '','' @ WorkRecord.id r) rs)
   \<and> (routeNames r = None \<longrightarrow> or_else (routeNames r) ''-'' = ''-'')
   \<and> toFixed v 2 = (if v < 0 then ''-'' else '''') @ digits (nat \<lfloor>\<bar>v\<bar> * 100 + 1 / 2\<rfloor> div 100) @ ''.''
        @ [digit (nat \<lfloor>\<bar>v\<bar> * 100 + 1 / 2\<rfloor> div 10 mod 10), digit (nat \<lfloor>\<bar>v\<bar> * 100 + 1 / 2\<rfloor> mod 10)]
   \<and> \<bar>rat_of_nat (nat \<lfloor>\<bar>v\<bar> * 100 + 1 / 2\<rfloor>) / 100 - \<bar>v\<bar>\<bar> \<le> 1 / 200
   \<and> csvContent (generateCSV
         [\<lparr>userId = u, date = ''2024-03-05'', mode = INDIVIDUAL, type = PARCEL, quantity = 3,
           value = 3, routeNames = None, isTwoIDs = b, photos = ph,
           id = ''abc'', timestamp = t\<rparr>] fileName)
       = ''Data,Tipo,Modo,Qtd,Valor,Rotas,ID'' @ [CHR 0x0A] @
         ''2024-03-05,PARCEL,INDIVIDUAL,3,3.00,-,abc''"
proof -
  have lines: "csvContent (generateCSV rs' fileName) =
     ''Data,Tipo,Modo,Qtd,Valor,Rotas,ID'' @
     concat (map (\<lambda>r. CHR 0x0A #
        date r @ '','' @ IndividualType_str (type r) @ '','' @ RecordMode_str (mode r) @ '','' @
        toString (quantity r) @ '','' @ toFixed (value r) 2 @ '','' @
        or_else (routeNames r) ''-'' @ '','' @ WorkRecord.id r) rs')" for rs'
    by (simp add: csvContent_lines rows_def headers_def comp_def)
  have three: "toFixed 3 2 = ''3.00''"
    by (simp add: toFixed_2 floor_rat_numeral digits_small digit_def)
  have example: "csvContent (generateCSV
         [\<lparr>userId = u, date = ''2024-03-05'', mode = INDIVIDUAL, type = PARCEL, quantity = 3,
           value = 3, routeNames = None, isTwoIDs = b, photos = ph,
           id = ''abc'', timestamp = t\<rparr>] fileName)
       = ''Data,Tipo,Modo,Qtd,Valor,Rotas,ID'' @ [CHR 0x0A] @
         ''2024-03-05,PARCEL,INDIVIDUAL,3,3.00,-,abc''"
    unfolding lines by (simp add: three toString_def digits_small digit_def or_else_def)
  show ?thesis
    using lines [of rs] example toFixed_2 [of v] toFixed_2_nearest [of v]
    by (simp add: or_else_def)
qed

theorem generateCSV_table_witness:
  "routeNames \<lparr>userId = ''u1'', date = ''2024-04-01'', mode = DAILY, type = DAILY_FLAT,
       quantity = 1, value = 180, routeNames = None, isTwoIDs = Some False, photos = [],
       id = ''r1'', timestamp = 0\<rparr> = None
   \<and> csvContent (generateCSV
         [\<lparr>userId = ''u1'', date = ''2024-04-01'', mode = DAILY, type = DAILY_FLAT,
           quantity = 1, value = 180, routeNames = None, isTwoIDs = Some False, photos = [],
           id = ''r1'', timestamp = 0\<rparr>] ''Payload_bob_2024-04'')
       = ''Data,Tipo,Modo,Qtd,Valor,Rotas,ID'' @ [CHR 0x0A] @
         ''2024-04-01,DAILY_FLAT,DAILY,1,180.00,-,r1''"
proof -
  let ?r = "\<lparr>userId = ''u1'', date = ''2024-04-01'', mode = DAILY, type = DAILY_FLAT,
       quantity = 1, value = 180, routeNames = None, isTwoIDs = Some False, photos = [],
       id = ''r1'', timestamp = 0\<rparr>"
  have absent: "routeNames ?r = None" by simp
  from generateCSV_table [of "[?r]" "''Payload_bob_2024-04''" ?r 180]
  have content: "csvContent (generateCSV [?r] ''Payload_bob_2024-04'') =
       ''Data,Tipo,Modo,Qtd,Valor,Rotas,ID'' @ concat (map (\<lambda>r. CHR 0x0A #
        date r @ '','' @ IndividualType_str (type r) @ '','' @ RecordMode_str (mode r) @ '','' @
        toString (quantity r) @ '','' @ toFixed (value r) 2 @ '','' @
        or_else (routeNames r) ''-'' @ '','' @ WorkRecord.id r) [?r])"
    and rotas: "or_else (routeNames ?r) ''-'' = ''-''"
    and valor: "toFixed 180 2 = (if (180::rat) < 0 then ''-'' else '''') @
        digits (nat \<lfloor>\<bar>180::rat\<bar> * 100 + 1 / 2\<rfloor> div 100) @ ''.''
        @ [digit (nat \<lfloor>\<bar>180::rat\<bar> * 100 + 1 / 2\<rfloor> div 10 mod 10),
           digit (nat \<lfloor>\<bar>180::rat\<bar> * 100 + 1 / 2\<rfloor> mod 10)]"
    using absent by blast+
  have valor': "toFixed 180 2 = ''180.00''"
    unfolding valor by (simp add: floor_rat_numeral digits_small digits_large digit_def)
  show ?thesis
    unfolding content using rotas valor'
    by (simp add: toString_def digits_small digit_def)
qed

text \<open>
  C10. The Rotas field is \<^verbatim>\<open>-\<close> for every falsy \<open>routeNames\<close>: when it is absent and also
  when it is present and empty. A record whose \<open>routeNames\<close> is the empty string is exported
  with \<^verbatim>\<open>-\<close> between the last two commas, not with an empty field; a non-empty
  \<open>routeNames\<close> is exported as it is.
\<close>

theorem generateCSV_rotas_falsy:
  "(routeNames r = None \<or> routeNames r = Some '''' \<longrightarrow>
      rows [r] = [[date r, IndividualType_str (type r), RecordMode_str (mode r),
                   toString (quantity r), toFixed (value r) 2, ''-'', WorkRecord.id r]]
      \<and> csvContent (generateCSV [r] fileName) =
          ''Data,Tipo,Modo,Qtd,Valor,Rotas,ID'' @ [CHR 0x0A] @
          date r @ '','' @ IndividualType_str (type r) @ '','' @ RecordMode_str (mode r) @ '','' @
          toString (quantity r) @ '','' @ toFixed (value r) 2 @ '','' @ ''-'' @ '','' @
          WorkRecord.id r)
   \<and> (routeNames r = Some s \<and> s \<noteq> '''' \<longrightarrow>
      rows [r] = [[date r, IndividualType_str (type r), RecordMode_str (mode r),
                   toString (quantity r), toFixed (value r) 2, s, WorkRecord.id r]])"
  by (auto simp add: csvContent_lines rows_def headers_def or_else_def)

theorem generateCSV_rotas_falsy_witness:
  "routeNames \<lparr>userId = ''u1'', date = ''2024-03-05'', mode = INDIVIDUAL, type = PARCEL,
       quantity = 3, value = 3, routeNames = Some '''', isTwoIDs = Some False, photos = [],
       id = ''abc'', timestamp = 0\<rparr> = Some ''''
   \<and> csvContent (generateCSV
         [\<lparr>userId = ''u1'', date = ''2024-03-05'', mode = INDIVIDUAL, type = PARCEL,
           quantity = 3, value = 3, routeNames = Some '''', isTwoIDs = Some False, photos = [],
           id = ''abc'', timestamp = 0\<rparr>] ''f'')
       = ''Data,Tipo,Modo,Qtd,Valor,Rotas,ID'' @ [CHR 0x0A] @
         ''2024-03-05,PARCEL,INDIVIDUAL,3,3.00,-,abc''
   \<and> routeNames \<lparr>userId = ''u1'', date = ''2024-03-06'', mode = DAILY, type = DAILY_FLAT,
       quantity = 150, value = 300, routeNames = Some ''A + B'', isTwoIDs = Some True,
       photos = [], id = ''def'', timestamp = 0\<rparr> = Some ''A + B''
   \<and> ''A + B'' \<noteq> ''''
   \<and> rows [\<lparr>userId = ''u1'', date = ''2024-03-06'', mode = DAILY, type = DAILY_FLAT,
       quantity = 150, value = 300, routeNames = Some ''A + B'', isTwoIDs = Some True,
       photos = [], id = ''def'', timestamp = 0\<rparr>]
       = [[''2024-03-06'', ''DAILY_FLAT'', ''DAILY'', ''150'', ''300.00'', ''A + B'', ''def'']]"
proof -
  let ?r = "\<lparr>userId = ''u1'', date = ''2024-03-05'', mode = INDIVIDUAL, type = PARCEL,
       quantity = 3, value = 3, routeNames = Some '''', isTwoIDs = Some False, photos = [],
       id = ''abc'', timestamp = 0\<rparr>"
  let ?d = "\<lparr>userId = ''u1'', date = ''2024-03-06'', mode = DAILY, type = DAILY_FLAT,
       quantity = 150, value = 300, routeNames = Some ''A + B'', isTwoIDs = Some True,
       photos = [], id = ''def'', timestamp = 0\<rparr>"
  have named: "routeNames ?d = Some ''A + B'' \<and> ''A + B'' \<noteq> ''''" by simp
  have hundreds: "toFixed 300 2 = ''300.00''"
    by (simp add: toFixed_2 floor_rat_numeral digits_small digits_large digit_def)
  have qty: "toString 150 = ''150''"
    by (simp add: toString_def digits_small digits_large digit_def)
  from generateCSV_rotas_falsy [of ?d "''f''" "''A + B''"] named
  have "rows [?d] = [[date ?d, IndividualType_str (type ?d), RecordMode_str (mode ?d),
                   toString (quantity ?d), toFixed (value ?d) 2, ''A + B'', WorkRecord.id ?d]]"
    by blast
  then have daily: "rows [?d]
      = [[''2024-03-06'', ''DAILY_FLAT'', ''DAILY'', ''150'', ''300.00'', ''A + B'', ''def'']]"
    using hundreds qty by simp
  have empty: "routeNames ?r = Some ''''" by simp
  have three: "toFixed 3 2 = ''3.00''"
    by (simp add: toFixed_2 floor_rat_numeral digits_small digit_def)
  from generateCSV_rotas_falsy [of ?r "''f''"] empty
  have "csvContent (generateCSV [?r] ''f'') =
          ''Data,Tipo,Modo,Qtd,Valor,Rotas,ID'' @ [CHR 0x0A] @
          date ?r @ '','' @ IndividualType_str (type ?r) @ '','' @ RecordMode_str (mode ?r) @ '','' @
          toString (quantity ?r) @ '','' @ toFixed (value ?r) 2 @ '','' @ ''-'' @ '','' @
          WorkRecord.id ?r"
    by blast
  then show ?thesis
    using three daily by (simp add: toString_def digits_small digit_def)
qed

section \<open>Facts about lists and the sort\<close>

lemma distinct_map_Cons_neq:
  assumes "distinct (map f (x # xs))" and "u \<in> set xs"
  shows "f u \<noteq> f x"
proof
  assume eq: "f u = f x"
  from assms(2) have "f u \<in> f ` set xs" by (rule imageI)
  with eq assms(1) show False by simp
qed

lemma distinct_filter_le_1:
  "distinct (map f xs) \<Longrightarrow> length (filter (\<lambda>u. f u = a) xs) \<le> 1"
proof (induction xs)
  case Nil
  then show ?case by simp
next
  case (Cons x xs)
  show ?case
  proof (cases "f x = a")
    case True
    with distinct_map_Cons_neq [OF Cons.prems] have "filter (\<lambda>u. f u = a) xs = []"
      by (simp add: filter_empty_conv)
    with True show ?thesis by simp
  next
    case False
    with Cons show ?thesis by simp
  qed
qed


lemma mset_insert_cmp: "mset (insert_cmp cmp x xs) = add_mset x (mset xs)"
  by (induction xs) simp_all

lemma mset_sort_cmp: "mset (sort_cmp cmp xs) = mset xs"
  by (induction xs) (simp_all add: sort_cmp_def mset_insert_cmp)

lemma set_insert_cmp: "set (insert_cmp cmp x xs) = insert x (set xs)"
  using mset_insert_cmp [of cmp x xs, THEN arg_cong, of set_mset] by simp

lemma set_sort_cmp: "set (sort_cmp cmp xs) = set xs"
  using mset_sort_cmp [of cmp xs, THEN arg_cong, of set_mset] by simp

lemma localeCompare_le_0: "(localeCompare a b \<le> 0) = (a \<le> b)"
  by (auto simp add: localeCompare_def)

text \<open>
  Sorting with the comparator \<^verbatim>\<open>(a, b) => key(b).localeCompare(key(a))\<close> gives a list in
  which the keys never increase, and keeps elements of equal key in their order.
\<close>

lemma sorted_insert_cmp_desc:
  fixes k :: "'a \<Rightarrow> string"
  assumes "sorted_wrt (\<lambda>a b. k b \<le> k a) xs"
  shows "sorted_wrt (\<lambda>a b. k b \<le> k a) (insert_cmp (\<lambda>a b. localeCompare (k b) (k a)) x xs)"
  using assms
proof (induction xs)
  case Nil
  then show ?case by simp
next
  case (Cons y ys)
  show ?case
  proof (cases "k y \<le> k x")
    case True
    with Cons.prems show ?thesis
      by (auto simp add: localeCompare_le_0 intro: order_trans)
  next
    case False
    then have "k x \<le> k y" by simp
    with False Cons show ?thesis
      by (auto simp add: localeCompare_le_0 set_insert_cmp)
  qed
qed

lemma sorted_sort_cmp_desc:
  fixes k :: "'a \<Rightarrow> string"
  shows "sorted_wrt (\<lambda>a b. k b \<le> k a) (sort_cmp (\<lambda>a b. localeCompare (k b) (k a)) xs)"
proof (induction xs)
  case Nil
  then show ?case by (simp add: sort_cmp_def)
next
  case (Cons x xs)
  then show ?case
    using sorted_insert_cmp_desc [of k "sort_cmp (\<lambda>a b. localeCompare (k b) (k a)) xs" x]
    by (simp add: sort_cmp_def)
qed



section \<open>The hosted store agrees with the local one\<close>

text \<open>
  On the store of the specification, every function of storage.ts computes what its
  namesake of the local store computes on the users and records that the rows stand for:
  for \<open>registerUser\<close> when the usernames of the rows are distinct, for
  \<open>initializeStorage\<close> when at most one row has the username \<^verbatim>\<open>admin\<close>, for the others
  always. So what is proved below of the local store holds of the hosted one as well.
  When the store cannot be reached the seed is skipped and the list of records is empty.
\<close>

lemma single_data:
  assumes "distinct (map f xs)"
  shows "(data (single (filter (\<lambda>r. f r = a) xs)) \<noteq> None) = (a \<in> f ` set xs)"
proof -
  from assms have le: "length (filter (\<lambda>r. f r = a) xs) \<le> 1" by (rule distinct_filter_le_1)
  show ?thesis
  proof (cases "filter (\<lambda>r. f r = a) xs")
    case Nil
    then have "a \<notin> f ` set xs" by (auto simp add: filter_empty_conv)
    with Nil show ?thesis by (simp add: single_def)
  next
    case (Cons r rs)
    with le have "rs = []" by simp
    moreover from Cons have "r \<in> set (filter (\<lambda>r. f r = a) xs)" by simp
    then have "a \<in> f ` set xs" by auto
    ultimately show ?thesis using Cons by (simp add: single_def)
  qed
qed

lemma single_data_le_1:
  assumes "length (filter p xs) \<le> 1"
  shows "(data (single (filter p xs)) \<noteq> None) = (\<exists>x\<in>set xs. p x)"
proof (cases "filter p xs")
  case Nil
  then show ?thesis by (auto simp add: single_def filter_empty_conv)
next
  case (Cons r rs)
  with assms have "rs = []" by simp
  moreover from Cons have "r \<in> set (filter p xs)" by simp
  then have "\<exists>x\<in>set xs. p x" by auto
  ultimately show ?thesis using Cons by (simp add: single_def)
qed

lemma single_error_code:
  "(case error (single xs) of None \<Rightarrow> False | Some e \<Rightarrow> code e \<noteq> ''PGRST116'') = False"
  by (simp add: single_def split: list.splits)

lemma registerUser_hosted_agrees:
  assumes "distinct (map UserInsert.username (users db))"
  shows "(case registerUser_hosted (table_store uuid) nm un pw now db of
            (res, db') \<Rightarrow> (res, as_Storage db'))
         = registerUser nm un pw uuid now (as_Storage db)"
  using single_data [OF assms, of un]
  by (auto simp add: registerUser_hosted_def registerUser_def table_store_def as_Storage_def
      getStoredUsers_def saveStoredUsers_def list_ex_iff Let_def user_of_row_def
      UserInsert.extend_def UserRow.fields_def UserInsert.defs UserRow.defs image_iff)


lemma initializeStorage_hosted_agrees:
  assumes "length (filter (\<lambda>r. UserInsert.username r = ''admin'') (users db)) \<le> 1"
  shows "as_Storage (initializeStorage_hosted (table_store uuid) now db)
         = initializeStorage uuid now (as_Storage db)"
  using single_data_le_1 [OF assms] single_error_code [of "filter (\<lambda>r. UserInsert.username r = ''admin'') (users db)"]
  by (auto simp add: initializeStorage_hosted_def initializeStorage_def table_store_def
      as_Storage_def getStoredUsers_def saveStoredUsers_def list_ex_iff Let_def user_of_row_def
      UserInsert.extend_def UserRow.fields_def UserInsert.defs UserRow.defs image_iff)

lemma initializeStorage_hosted_unreachable:
  "initializeStorage_hosted unreachable_store now db = db"
  by (simp add: initializeStorage_hosted_def unreachable_store_def)

lemma deleteRecord_hosted_agrees:
  "fst (deleteRecord_hosted (table_store next_id) rid db) = Inr ()
   \<and> as_Storage (snd (deleteRecord_hosted (table_store next_id) rid db))
       = deleteRecord rid (as_Storage db)"
  by (simp add: deleteRecord_hosted_def deleteRecord_def table_store_def as_Storage_def
      getStoredRecords_def saveStoredRecords_def filter_map comp_def record_of_row_def)

lemma map_insert_cmp:
  "map f (insert_cmp (\<lambda>a b. c (f a) (f b)) x xs) = insert_cmp c (f x) (map f xs)"
  by (induction xs) simp_all

lemma map_sort_cmp: "map f (sort_cmp (\<lambda>a b. c (f a) (f b)) xs) = sort_cmp c (map f xs)"
  by (induction xs) (simp_all add: sort_cmp_def map_insert_cmp)

lemma getUserRecords_hosted_agrees:
  "getUserRecords_hosted (table_store next_id) uid db = Inr (getUserRecords uid (as_Storage db))"
proof -
  have "map record_of_row
          (sort_cmp (\<lambda>a b. localeCompare (RecordInsert.date b) (RecordInsert.date a))
             (filter (\<lambda>r. user_id r = uid) (work_records db)))
        = sort_cmp (\<lambda>a b. localeCompare (date b) (date a))
            (filter (\<lambda>r. userId r = uid) (map record_of_row (work_records db)))"
    using map_sort_cmp [of record_of_row "\<lambda>a b. localeCompare (date b) (date a)"
        "filter (\<lambda>r. user_id r = uid) (work_records db)"]
    by (simp add: filter_map comp_def record_of_row_def)
  then show ?thesis
    by (simp add: getUserRecords_hosted_def getUserRecords_def table_store_def as_Storage_def
      getStoredRecords_def)
qed

lemma getUserRecords_hosted_unreachable:
  "getUserRecords_hosted unreachable_store uid db = Inr []"
  by (simp add: getUserRecords_hosted_def unreachable_store_def)

lemma createRecord_hosted_agrees:
  "fst (createRecord_hosted (table_store uuid) draft now db) = Inr ()
   \<and> as_Storage (snd (createRecord_hosted (table_store uuid) draft now db))
       = createRecord draft uuid now (as_Storage db)"
  by (simp add: createRecord_hosted_def createRecord_def table_store_def as_Storage_def
      getStoredRecords_def saveStoredRecords_def record_of_row_def Let_def
      RecordInsert.extend_def RecordRow.fields_def RecordInsert.defs RecordRow.defs
      WorkRecordDraft.extend_def WorkRecord.fields_def WorkRecordDraft.defs WorkRecord.defs)

section \<open>Users: registration and the admin seed\<close>






text \<open>
  Outside the data model: when two rows already have the username, the single-row lookup of
  the store gives no row, and the function of storage.ts inserts a third.
\<close>

lemma registerUser_hosted_two_rows:
  "registerUser_hosted (table_store ''3'') ''Robert'' ''bob'' ''x'' 9
     \<lparr>users = [user_row ''1'' ''Bob'' ''bob'', user_row ''2'' ''Bobby'' ''bob''], work_records = []\<rparr>
   = (Inr \<lparr>User.id = ''3'', name = ''Robert'', username = ''bob'', passwordHash = ''x'',
           role = DRIVER, createdAt = 9\<rparr>,
      \<lparr>users = [user_row ''1'' ''Bob'' ''bob'', user_row ''2'' ''Bobby'' ''bob'',
                 \<lparr>UserInsert.name = ''Robert'', UserInsert.username = ''bob'', password_hash = ''x'',
                   UserInsert.role = DRIVER, created_at = 9, UserRow.id = ''3''\<rparr>],
        work_records = []\<rparr>)"
  by (simp add: registerUser_hosted_def table_store_def single_def Let_def user_of_row_def
      user_row_def UserInsert.extend_def UserRow.fields_def UserInsert.defs UserRow.defs)




lemma adminCount_0: "(adminCount st = 0) = (\<not> list_ex (\<lambda>u. username u = ''admin'') (USERS st))"
  by (auto simp add: adminCount_def list_ex_iff filter_empty_conv)

lemma initializeStorage_present: "0 < adminCount st \<Longrightarrow> initializeStorage uuid now st = st"
  using adminCount_0 [of st] by (simp add: initializeStorage_def getStoredUsers_def Let_def)

lemma initializeStorage_absent:
  "adminCount st = 0 \<Longrightarrow> initializeStorage uuid now st =
    st\<lparr>USERS := USERS st @ [\<lparr>User.id = uuid, name = ''System Admin'', username = ''admin'',
                             passwordHash = ''EVRI01'', role = ADMIN, createdAt = now\<rparr>]\<rparr>"
  using adminCount_0 [of st]
  by (simp add: initializeStorage_def getStoredUsers_def saveStoredUsers_def Let_def)

lemma adminCount_initializeStorage:
  "adminCount (initializeStorage uuid now st) = max 1 (adminCount st)"
proof (cases "adminCount st = 0")
  case True
  then show ?thesis by (simp add: initializeStorage_absent) (simp add: adminCount_def)
next
  case False
  then show ?thesis by (simp add: initializeStorage_present)
qed

text \<open>The store's own operations keep the usernames distinct.\<close>

lemma registerUser_distinct:
  "distinct (map username (USERS st)) \<Longrightarrow>
     distinct (map username (USERS (snd (registerUser nm un pw uuid now st))))"
  by (auto simp add: registerUser_def getStoredUsers_def saveStoredUsers_def list_ex_iff Let_def)

lemma initializeStorage_distinct:
  "distinct (map username (USERS st)) \<Longrightarrow>
     distinct (map username (USERS (initializeStorage uuid now st)))"
  by (auto simp add: initializeStorage_def getStoredUsers_def saveStoredUsers_def list_ex_iff Let_def)

lemma adminCount_as_Storage:
  "adminCount (as_Storage db)
   = length (filter (\<lambda>r. UserInsert.username r = ''admin'') (users db))"
  by (simp add: adminCount_def as_Storage_def filter_map comp_def user_of_row_def)

lemma initializeStorage_hosted_present:
  assumes "adminCount (as_Storage db) = 1"
  shows "initializeStorage_hosted (table_store uuid) now db = db"
proof -
  from assms have "length (filter (\<lambda>r. UserInsert.username r = ''admin'') (users db)) = 1"
    by (simp add: adminCount_as_Storage)
  then obtain r where "filter (\<lambda>r. UserInsert.username r = ''admin'') (users db) = [r]"
    by (auto simp add: length_Suc_conv)
  then show ?thesis
    by (simp add: initializeStorage_hosted_def table_store_def single_def)
qed

lemma initializeStorage_hosted_twice:
  assumes "adminCount (as_Storage db) \<le> 1"
  shows "adminCount (as_Storage (initializeStorage_hosted (table_store uuid1) now1 db)) = 1"
    and "initializeStorage_hosted (table_store uuid2) now2
           (initializeStorage_hosted (table_store uuid1) now1 db)
         = initializeStorage_hosted (table_store uuid1) now1 db"
proof -
  from assms have "length (filter (\<lambda>r. UserInsert.username r = ''admin'') (users db)) \<le> 1"
    by (simp add: adminCount_as_Storage)
  then have "as_Storage (initializeStorage_hosted (table_store uuid1) now1 db)
             = initializeStorage uuid1 now1 (as_Storage db)"
    by (rule initializeStorage_hosted_agrees)
  with assms show one: "adminCount (as_Storage (initializeStorage_hosted (table_store uuid1) now1 db)) = 1"
    by (simp add: adminCount_initializeStorage)
  then show "initializeStorage_hosted (table_store uuid2) now2
           (initializeStorage_hosted (table_store uuid1) now1 db)
         = initializeStorage_hosted (table_store uuid1) now1 db"
    by (rule initializeStorage_hosted_present)
qed

lemma initializeStorage_hosted_failed:
  assumes "error (users_eq_single supabase s (\<lambda>r. UserInsert.username r = ''admin'')) = Some e"
    and "code e \<noteq> ''PGRST116''"
  shows "initializeStorage_hosted supabase now s = s"
  using assms by (simp add: initializeStorage_hosted_def)

text \<open>
  Outside the data model: when two rows already have the username \<^verbatim>\<open>admin\<close>, the single-row
  lookup of the store gives no row, and every run of the function of storage.ts inserts
  another.
\<close>

lemma initializeStorage_hosted_two_rows:
  "adminCount (as_Storage (initializeStorage_hosted (table_store ''4'') 2
      (initializeStorage_hosted (table_store ''3'') 1
        \<lparr>users = [user_row ''1'' ''First'' ''admin'', user_row ''2'' ''Second'' ''admin''],
          work_records = []\<rparr>))) = 4"
  by (simp add: adminCount_as_Storage initializeStorage_hosted_def table_store_def single_def
      user_row_def Let_def UserInsert.extend_def UserRow.fields_def UserInsert.defs UserRow.defs)

text \<open>
  C6, as the claim states it, is false of the function of storage.ts, which the application
  calls at startup: it ends without seeding when the lookup fails with an error other than
  PGRST116 (no row), so as to tolerate a store that is not provisioned (section 4.4 of the
  specification). On a store that cannot be reached or has no table of users, two runs in
  sequence leave no user with username \<^verbatim>\<open>admin\<close>, not exactly one.
\<close>

theorem initializeStorage_twice_counterexample:
  "adminCount (as_Storage (initializeStorage_hosted unreachable_store 2
      (initializeStorage_hosted unreachable_store 1 \<lparr>users = [], work_records = []\<rparr>))) = 0"
  by (simp add: initializeStorage_hosted_unreachable) (simp add: adminCount_def as_Storage_def)

text \<open>
  C6, amended. \<open>initializeStorage\<close> creates the user \<^verbatim>\<open>admin\<close> only when the lookup finds no
  user of that username, and on a store that answers it is idempotent: running it twice in
  sequence from a starting state that holds at most one user with username \<^verbatim>\<open>admin\<close> (every
  state with unique usernames, as the data model has them, is one) leaves exactly one user
  with username \<^verbatim>\<open>admin\<close>, the second run changing nothing. When the lookup fails with an
  error other than PGRST116, as on a store that cannot be reached, it creates nothing and
  leaves the store as it was.
  The first five conjuncts are the function of types.ts on the local store; the next two
  are the function of storage.ts on the store of the specification, where it leaves the
  users that the function of types.ts leaves; the last two are the function of storage.ts
  on any store.
\<close>

theorem initializeStorage_twice:
  "(adminCount st \<le> 1 \<longrightarrow>
      adminCount (initializeStorage uuid2 now2 (initializeStorage uuid1 now1 st)) = 1)
   \<and> initializeStorage uuid2 now2 (initializeStorage uuid1 now1 st) = initializeStorage uuid1 now1 st
   \<and> (adminCount st = 0 \<longrightarrow>
        initializeStorage uuid1 now1 st =
          st\<lparr>USERS := USERS st @ [\<lparr>User.id = uuid1, name = ''System Admin'', username = ''admin'',
                 passwordHash = ''EVRI01'', role = ADMIN, createdAt = now1\<rparr>]\<rparr>)
   \<and> (0 < adminCount st \<longrightarrow> initializeStorage uuid1 now1 st = st)
   \<and> (distinct (map username (USERS st)) \<longrightarrow> adminCount st \<le> 1)
   \<and> (adminCount (as_Storage db) \<le> 1 \<longrightarrow>
        adminCount (as_Storage (initializeStorage_hosted (table_store uuid2) now2
            (initializeStorage_hosted (table_store uuid1) now1 db))) = 1
        \<and> initializeStorage_hosted (table_store uuid2) now2
            (initializeStorage_hosted (table_store uuid1) now1 db)
          = initializeStorage_hosted (table_store uuid1) now1 db
        \<and> as_Storage (initializeStorage_hosted (table_store uuid1) now1 db)
          = initializeStorage uuid1 now1 (as_Storage db))
   \<and> (distinct (map UserInsert.username (users db)) \<longrightarrow> adminCount (as_Storage db) \<le> 1)
   \<and> (error (users_eq_single supabase s (\<lambda>r. UserInsert.username r = ''admin'')) = Some e
        \<and> code e \<noteq> ''PGRST116'' \<longrightarrow>
        initializeStorage_hosted supabase now2 (initializeStorage_hosted supabase now1 s) = s)
   \<and> initializeStorage_hosted unreachable_store now2
        (initializeStorage_hosted unreachable_store now1 s) = s"
proof -
  have twice: "initializeStorage uuid2 now2 (initializeStorage uuid1 now1 st)
               = initializeStorage uuid1 now1 st"
    by (rule initializeStorage_present) (simp add: adminCount_initializeStorage)
  have uniq: "adminCount st \<le> 1" if "distinct (map username (USERS st))"
    using that unfolding adminCount_def by (rule distinct_filter_le_1)
  have local: "(adminCount st \<le> 1 \<longrightarrow>
      adminCount (initializeStorage uuid2 now2 (initializeStorage uuid1 now1 st)) = 1)
   \<and> initializeStorage uuid2 now2 (initializeStorage uuid1 now1 st) = initializeStorage uuid1 now1 st
   \<and> (adminCount st = 0 \<longrightarrow>
        initializeStorage uuid1 now1 st =
          st\<lparr>USERS := USERS st @ [\<lparr>User.id = uuid1, name = ''System Admin'', username = ''admin'',
                 passwordHash = ''EVRI01'', role = ADMIN, createdAt = now1\<rparr>]\<rparr>)
   \<and> (0 < adminCount st \<longrightarrow> initializeStorage uuid1 now1 st = st)
   \<and> (distinct (map username (USERS st)) \<longrightarrow> adminCount st \<le> 1)"
    using twice uniq initializeStorage_absent [of st uuid1 now1]
      initializeStorage_present [of st uuid1 now1]
    by (simp add: adminCount_initializeStorage)
  have hosted: "adminCount (as_Storage (initializeStorage_hosted (table_store uuid2) now2
            (initializeStorage_hosted (table_store uuid1) now1 db))) = 1
        \<and> initializeStorage_hosted (table_store uuid2) now2
            (initializeStorage_hosted (table_store uuid1) now1 db)
          = initializeStorage_hosted (table_store uuid1) now1 db
        \<and> as_Storage (initializeStorage_hosted (table_store uuid1) now1 db)
          = initializeStorage uuid1 now1 (as_Storage db)" if le: "adminCount (as_Storage db) \<le> 1"
  proof -
    from le have "length (filter (\<lambda>r. UserInsert.username r = ''admin'') (users db)) \<le> 1"
      by (simp add: adminCount_as_Storage)
    then have same: "as_Storage (initializeStorage_hosted (table_store uuid1) now1 db)
               = initializeStorage uuid1 now1 (as_Storage db)"
      by (rule initializeStorage_hosted_agrees)
    have again: "initializeStorage_hosted (table_store uuid2) now2
            (initializeStorage_hosted (table_store uuid1) now1 db)
          = initializeStorage_hosted (table_store uuid1) now1 db"
      using le by (rule initializeStorage_hosted_twice)
    have one: "adminCount (as_Storage (initializeStorage_hosted (table_store uuid1) now1 db)) = 1"
      using le by (rule initializeStorage_hosted_twice)
    show ?thesis
    proof (intro conjI)
      show "adminCount (as_Storage (initializeStorage_hosted (table_store uuid2) now2
            (initializeStorage_hosted (table_store uuid1) now1 db))) = 1"
        unfolding again by (rule one)
    qed (rule again, rule same)
  qed
  have failed: "initializeStorage_hosted supabase now2 (initializeStorage_hosted supabase now1 s) = s"
    if "error (users_eq_single supabase s (\<lambda>r. UserInsert.username r = ''admin'')) = Some e
        \<and> code e \<noteq> ''PGRST116''"
  proof -
    from that have "initializeStorage_hosted supabase t s = s" for t
      using initializeStorage_hosted_failed [of supabase s e t] by blast
    then show ?thesis by simp
  qed
  have unreachable: "initializeStorage_hosted unreachable_store now2
        (initializeStorage_hosted unreachable_store now1 s) = s"
    by (simp add: initializeStorage_hosted_unreachable)
  have rows: "adminCount (as_Storage db) \<le> 1" if "distinct (map UserInsert.username (users db))"
    using that unfolding adminCount_as_Storage by (rule distinct_filter_le_1)
  from local hosted rows failed unreachable show ?thesis by blast
qed

theorem initializeStorage_twice_witness:
  "adminCount \<lparr>USERS = [], RECORDS = []\<rparr> \<le> 1
   \<and> adminCount \<lparr>USERS = [], RECORDS = []\<rparr> = 0
   \<and> distinct (map username (USERS \<lparr>USERS = [], RECORDS = []\<rparr>))
   \<and> adminCount (initializeStorage ''id2'' 2 (initializeStorage ''id1'' 1
        \<lparr>USERS = [], RECORDS = []\<rparr>)) = 1
   \<and> initializeStorage ''id1'' 1 \<lparr>USERS = [], RECORDS = []\<rparr> =
        \<lparr>USERS = [\<lparr>User.id = ''id1'', name = ''System Admin'', username = ''admin'',
                    passwordHash = ''EVRI01'', role = ADMIN, createdAt = 1\<rparr>], RECORDS = []\<rparr>
   \<and> 0 < adminCount \<lparr>USERS = [\<lparr>User.id = ''id1'', name = ''System Admin'', username = ''admin'',
                    passwordHash = ''EVRI01'', role = ADMIN, createdAt = 1\<rparr>], RECORDS = []\<rparr>
   \<and> initializeStorage ''id2'' 2
        \<lparr>USERS = [\<lparr>User.id = ''id1'', name = ''System Admin'', username = ''admin'',
                    passwordHash = ''EVRI01'', role = ADMIN, createdAt = 1\<rparr>], RECORDS = []\<rparr> =
        \<lparr>USERS = [\<lparr>User.id = ''id1'', name = ''System Admin'', username = ''admin'',
                    passwordHash = ''EVRI01'', role = ADMIN, createdAt = 1\<rparr>], RECORDS = []\<rparr>
   \<and> distinct (map UserInsert.username
         (users \<lparr>users = [user_row ''7'' ''Bob'' ''bob''], work_records = []\<rparr>))
   \<and> adminCount (as_Storage \<lparr>users = [user_row ''7'' ''Bob'' ''bob''], work_records = []\<rparr>) \<le> 1
   \<and> adminCount (as_Storage (initializeStorage_hosted (table_store ''id2'') 2
        (initializeStorage_hosted (table_store ''id1'') 1
          \<lparr>users = [user_row ''7'' ''Bob'' ''bob''], work_records = []\<rparr>))) = 1
   \<and> initializeStorage_hosted (table_store ''id2'') 2
        (initializeStorage_hosted (table_store ''id1'') 1
          \<lparr>users = [user_row ''7'' ''Bob'' ''bob''], work_records = []\<rparr>)
      = \<lparr>users = [user_row ''7'' ''Bob'' ''bob'',
                   \<lparr>UserInsert.name = ''System Admin'', UserInsert.username = ''admin'',
                     password_hash = ''EVRI01'', UserInsert.role = ADMIN, created_at = 1,
                     UserRow.id = ''id1''\<rparr>], work_records = []\<rparr>
   \<and> error (users_eq_single unreachable_store \<lparr>users = [], work_records = []\<rparr>
        (\<lambda>r. UserInsert.username r = ''admin''))
      = Some \<lparr>code = ''42P01'', message = ''relation does not exist''\<rparr>
   \<and> code \<lparr>code = ''42P01'', message = ''relation does not exist''\<rparr> \<noteq> ''PGRST116''
   \<and> initializeStorage_hosted unreachable_store 2
        (initializeStorage_hosted unreachable_store 1 \<lparr>users = [], work_records = []\<rparr>)
      = \<lparr>users = [], work_records = []\<rparr>"
proof -
  let ?some = "\<lparr>users = [user_row ''7'' ''Bob'' ''bob''], work_records = []\<rparr>"
  let ?none = "\<lparr>users = [], work_records = []\<rparr>"
  have first: "initializeStorage_hosted (table_store ''id1'') 1 ?some
      = \<lparr>users = [user_row ''7'' ''Bob'' ''bob'',
                   \<lparr>UserInsert.name = ''System Admin'', UserInsert.username = ''admin'',
                     password_hash = ''EVRI01'', UserInsert.role = ADMIN, created_at = 1,
                     UserRow.id = ''id1''\<rparr>], work_records = []\<rparr>"
    by (simp add: initializeStorage_hosted_def table_store_def single_def user_row_def Let_def)
      (simp add: UserInsert.extend_def UserRow.fields_def UserInsert.defs UserRow.defs)
  have err: "error (users_eq_single unreachable_store ?none
        (\<lambda>r. UserInsert.username r = ''admin''))
      = Some \<lparr>code = ''42P01'', message = ''relation does not exist''\<rparr>"
    by (simp add: unreachable_store_def)
  note a = initializeStorage_twice [of "\<lparr>USERS = [], RECORDS = []\<rparr>"
      "''id2''" 2 "''id1''" 1 ?some unreachable_store ?none
      "\<lparr>code = ''42P01'', message = ''relation does not exist''\<rparr>"]
  note b = initializeStorage_twice [of "\<lparr>USERS = [\<lparr>User.id = ''id1'', name = ''System Admin'',
        username = ''admin'', passwordHash = ''EVRI01'', role = ADMIN, createdAt = 1\<rparr>],
        RECORDS = []\<rparr>" "''id3''" 3 "''id2''" 2 ?none unreachable_store ?none
      "\<lparr>code = ''42P01'', message = ''relation does not exist''\<rparr>"]
  have rows: "distinct (map UserInsert.username (users ?some))"
    by simp
  with a have le: "adminCount (as_Storage ?some) \<le> 1"
    by blast
  have none: "adminCount \<lparr>USERS = [], RECORDS = []\<rparr> = 0"
    and seeded: "0 < adminCount \<lparr>USERS = [\<lparr>User.id = ''id1'', name = ''System Admin'',
        username = ''admin'', passwordHash = ''EVRI01'', role = ADMIN, createdAt = 1\<rparr>],
        RECORDS = []\<rparr>"
    by (simp_all add: adminCount_def)
  have few: "adminCount \<lparr>USERS = [], RECORDS = []\<rparr> \<le> 1"
    by (simp add: adminCount_def)
  from a few have one: "adminCount (initializeStorage ''id2'' 2 (initializeStorage ''id1'' 1
        \<lparr>USERS = [], RECORDS = []\<rparr>)) = 1"
    by blast
  from a none have "initializeStorage ''id1'' 1 \<lparr>USERS = [], RECORDS = []\<rparr> =
        \<lparr>USERS = [], RECORDS = []\<rparr>\<lparr>USERS := USERS \<lparr>USERS = [], RECORDS = []\<rparr> @
          [\<lparr>User.id = ''id1'', name = ''System Admin'', username = ''admin'',
             passwordHash = ''EVRI01'', role = ADMIN, createdAt = 1\<rparr>]\<rparr>"
    by blast
  then have seed: "initializeStorage ''id1'' 1 \<lparr>USERS = [], RECORDS = []\<rparr> =
        \<lparr>USERS = [\<lparr>User.id = ''id1'', name = ''System Admin'', username = ''admin'',
                    passwordHash = ''EVRI01'', role = ADMIN, createdAt = 1\<rparr>], RECORDS = []\<rparr>"
    by simp
  from b seeded have kept: "initializeStorage ''id2'' 2
        \<lparr>USERS = [\<lparr>User.id = ''id1'', name = ''System Admin'', username = ''admin'',
                    passwordHash = ''EVRI01'', role = ADMIN, createdAt = 1\<rparr>], RECORDS = []\<rparr> =
        \<lparr>USERS = [\<lparr>User.id = ''id1'', name = ''System Admin'', username = ''admin'',
                    passwordHash = ''EVRI01'', role = ADMIN, createdAt = 1\<rparr>], RECORDS = []\<rparr>"
    by blast
  from a le have hosted_one: "adminCount (as_Storage (initializeStorage_hosted (table_store ''id2'') 2
        (initializeStorage_hosted (table_store ''id1'') 1 ?some))) = 1"
    and hosted_same: "initializeStorage_hosted (table_store ''id2'') 2
        (initializeStorage_hosted (table_store ''id1'') 1 ?some)
      = initializeStorage_hosted (table_store ''id1'') 1 ?some"
    by blast+
  from a have failed: "initializeStorage_hosted unreachable_store 2
        (initializeStorage_hosted unreachable_store 1 ?none) = ?none"
    by blast
  note hosted_two = hosted_same [unfolded first]
  have hosted_both: "initializeStorage_hosted (table_store ''id2'') 2
        (initializeStorage_hosted (table_store ''id1'') 1 ?some)
      = \<lparr>users = [user_row ''7'' ''Bob'' ''bob'',
                   \<lparr>UserInsert.name = ''System Admin'', UserInsert.username = ''admin'',
                     password_hash = ''EVRI01'', UserInsert.role = ADMIN, created_at = 1,
                     UserRow.id = ''id1''\<rparr>], work_records = []\<rparr>"
    unfolding first by (rule hosted_two)
  from none one seed seeded kept rows le hosted_one hosted_both err failed
  show ?thesis by simp
qed

section \<open>Records: deleting and listing\<close>





section \<open>Monthly groups\<close>

lemma fst_add_record:
  "map fst (add_record L gs r) =
     (if take 7 (date r) \<in> fst ` set gs then map fst gs else map fst gs @ [take 7 (date r)])"
  by (auto simp add: add_record_def Let_def map_of_eq_None_iff split: prod.splits)

lemma filter_key_absent: "a \<notin> f ` set xs \<Longrightarrow> filter (\<lambda>x. f x = a) xs = []"
  by (induction xs) auto

text \<open>
  What holds of every entry of the dictionary once the records \<open>rs\<close> have been added, and
  why adding one more record keeps it.
\<close>

lemma add_record_entry:
  assumes inv: "\<forall>(k, g)\<in>set gs. monthKey g = k
            \<and> records g = filter (\<lambda>r. take 7 (date r) = k) rs
            \<and> records g \<noteq> []
            \<and> MonthlyGroup.total g = foldl Number_add 0 (map value (records g))
            \<and> label g = L (date (hd (records g)))"
    and keys: "fst ` set gs = (\<lambda>r. take 7 (date r)) ` set rs"
  shows "\<forall>(k, g)\<in>set (add_record L gs r). monthKey g = k
            \<and> records g = filter (\<lambda>r. take 7 (date r) = k) (rs @ [r])
            \<and> records g \<noteq> []
            \<and> MonthlyGroup.total g = foldl Number_add 0 (map value (records g))
            \<and> label g = L (date (hd (records g)))"
proof (cases "take 7 (date r) \<in> fst ` set gs")
  case True
  then have "map_of gs (take 7 (date r)) \<noteq> None" by (simp add: map_of_eq_None_iff)
  with inv show ?thesis
    by (auto simp add: add_record_def Let_def split: if_splits)
next
  case False
  then have none: "map_of gs (take 7 (date r)) = None" by (simp add: map_of_eq_None_iff)
  from False keys have "filter (\<lambda>x. take 7 (date x) = take 7 (date r)) rs = []"
    by (simp add: filter_key_absent)
  with inv none False show ?thesis
    by (auto simp add: add_record_def Let_def split: if_splits)
qed

lemma groups_invariant:
  "distinct (map fst (foldl (add_record L) [] rs))
   \<and> fst ` set (foldl (add_record L) [] rs) = (\<lambda>r. take 7 (date r)) ` set rs
   \<and> (\<forall>(k, g)\<in>set (foldl (add_record L) [] rs). monthKey g = k
            \<and> records g = filter (\<lambda>r. take 7 (date r) = k) rs
            \<and> records g \<noteq> []
            \<and> MonthlyGroup.total g = foldl Number_add 0 (map value (records g))
            \<and> label g = L (date (hd (records g))))"
proof (induction rs rule: rev_induct)
  case Nil
  then show ?case by simp
next
  case (snoc r rs)
  let ?gs = "foldl (add_record L) [] rs"
  from snoc have d: "distinct (map fst ?gs)"
    and k: "fst ` set ?gs = (\<lambda>r. take 7 (date r)) ` set rs"
    and e: "\<forall>(k, g)\<in>set ?gs. monthKey g = k
            \<and> records g = filter (\<lambda>r. take 7 (date r) = k) rs
            \<and> records g \<noteq> []
            \<and> MonthlyGroup.total g = foldl Number_add 0 (map value (records g))
            \<and> label g = L (date (hd (records g)))"
    by blast+
  have d': "distinct (map fst (add_record L ?gs r))"
    using d by (simp add: fst_add_record)
  have "set (map fst (add_record L ?gs r)) = insert (take 7 (date r)) (fst ` set ?gs)"
    by (auto simp add: fst_add_record)
  then have k': "fst ` set (add_record L ?gs r) = (\<lambda>r. take 7 (date r)) ` set (rs @ [r])"
    using k by simp
  from add_record_entry [OF e k] d' k' show ?case by simp
qed

lemma sorted_wrt_strict:
  fixes k :: "'a \<Rightarrow> string"
  shows "sorted_wrt (\<lambda>a b. k b \<le> k a) xs \<Longrightarrow> distinct (map k xs)
         \<Longrightarrow> sorted_wrt (\<lambda>a b. k b < k a) xs"
proof (induction xs)
  case Nil
  then show ?case by simp
next
  case (Cons x xs)
  have "k y < k x" if "y \<in> set xs" for y
  proof -
    from Cons.prems(1) that have "k y \<le> k x" by simp
    moreover have "k y \<noteq> k x" by (rule distinct_map_Cons_neq [OF Cons.prems(2) that])
    ultimately show ?thesis by simp
  qed
  with Cons show ?case by simp
qed

lemma sum_filter_keys:
  "distinct ks \<Longrightarrow>
     (\<Sum>k\<leftarrow>ks. filter_mset (\<lambda>r. f r = k) M) = filter_mset (\<lambda>r. f r \<in> set ks) M"
proof (induction ks)
  case Nil
  then show ?case by simp
next
  case (Cons k ks)
  then have "k \<notin> set ks" by simp
  then have "filter_mset (\<lambda>r. f r = k) M + filter_mset (\<lambda>r. f r \<in> set ks) M
        = filter_mset (\<lambda>r. f r \<in> set (k # ks)) M"
    by (auto intro!: multiset_eqI)
  with Cons show ?case by simp
qed

lemma groups_entries:
  assumes "g \<in> set (groupedRecords L rs)"
  shows "records g = filter (\<lambda>r. take 7 (date r) = monthKey g) rs
         \<and> records g \<noteq> []
         \<and> MonthlyGroup.total g = foldl Number_add 0 (map value (records g))
         \<and> label g = L (date (hd (records g)))"
proof -
  from assms obtain k where "(k, g) \<in> set (foldl (add_record L) [] rs)"
    by (auto simp add: groupedRecords_def set_sort_cmp)
  with groups_invariant [of L rs] show ?thesis by blast
qed

lemma groups_keys:
  "map monthKey (map snd (foldl (add_record L) [] rs)) = map fst (foldl (add_record L) [] rs)"
  using groups_invariant [of L rs] by auto

lemma groups_distinct: "distinct (map monthKey (groupedRecords L rs))"
proof -
  have "mset (map monthKey (groupedRecords L rs))
        = mset (map monthKey (map snd (foldl (add_record L) [] rs)))"
    by (simp add: groupedRecords_def mset_sort_cmp del: map_map)
  then have "distinct (map monthKey (groupedRecords L rs))
        = distinct (map monthKey (map snd (foldl (add_record L) [] rs)))"
    by (rule mset_eq_imp_distinct_iff)
  with groups_invariant [of L rs] show ?thesis
    unfolding groups_keys by simp
qed

lemma groups_key_set:
  "monthKey ` set (groupedRecords L rs) = (\<lambda>r. take 7 (date r)) ` set rs"
proof -
  have "monthKey ` set (groupedRecords L rs)
        = set (map monthKey (map snd (foldl (add_record L) [] rs)))"
    by (simp add: groupedRecords_def set_sort_cmp image_image)
  also have "\<dots> = fst ` set (foldl (add_record L) [] rs)"
    unfolding groups_keys by simp
  finally show ?thesis using groups_invariant [of L rs] by simp
qed

lemma groups_sorted: "sorted_wrt (\<lambda>a b. monthKey b < monthKey a) (groupedRecords L rs)"
proof (rule sorted_wrt_strict)
  show "sorted_wrt (\<lambda>a b. monthKey b \<le> monthKey a) (groupedRecords L rs)"
    unfolding groupedRecords_def by (rule sorted_sort_cmp_desc)
  show "distinct (map monthKey (groupedRecords L rs))" by (rule groups_distinct)
qed

lemma groups_unique:
  assumes "r \<in> set rs"
  shows "\<exists>!g. g \<in> set (groupedRecords L rs) \<and> r \<in> set (records g)"
proof -
  from assms have "take 7 (date r) \<in> monthKey ` set (groupedRecords L rs)"
    unfolding groups_key_set by (rule imageI)
  then obtain g where g: "g \<in> set (groupedRecords L rs)" and k: "monthKey g = take 7 (date r)"
    by auto
  from groups_entries [OF g] k assms have "r \<in> set (records g)" by simp
  moreover have "g' = g" if "g' \<in> set (groupedRecords L rs)" "r \<in> set (records g')" for g'
  proof -
    from groups_entries [OF that(1)] that(2) have "monthKey g' = take 7 (date r)" by auto
    with k have "monthKey g' = monthKey g" by simp
    moreover from groups_distinct [of L rs] have "inj_on monthKey (set (groupedRecords L rs))"
      by (simp add: distinct_map)
    ultimately show ?thesis using g that(1) by (auto dest: inj_onD)
  qed
  ultimately show ?thesis using g by blast
qed

lemma groups_partition: "mset (concat (map records (groupedRecords L rs))) = mset rs"
proof -
  let ?G = "groupedRecords L rs"
  have eq: "map (\<lambda>g. mset (records g)) ?G
        = map (\<lambda>g. filter_mset (\<lambda>r. take 7 (date r) = monthKey g) (mset rs)) ?G"
    using groups_entries [of _ L rs] by (intro map_cong) auto
  have "mset (concat (map records ?G)) = sum_list (map (\<lambda>g. mset (records g)) ?G)"
    by (simp add: mset_concat comp_def)
  also have "\<dots> = sum_list (map (\<lambda>g. filter_mset (\<lambda>r. take 7 (date r) = monthKey g) (mset rs)) ?G)"
    by (simp only: eq)
  also have "\<dots> = (\<Sum>k\<leftarrow>map monthKey ?G. filter_mset (\<lambda>r. take 7 (date r) = k) (mset rs))"
    by (simp add: comp_def)
  also have "\<dots> = filter_mset (\<lambda>r. take 7 (date r) \<in> set (map monthKey ?G)) (mset rs)"
    by (rule sum_filter_keys) (rule groups_distinct)
  also have "\<dots> = mset rs"
    unfolding set_map groups_key_set by (rule multiset_eqI) (auto simp add: count_eq_zero_iff)
  finally show ?thesis .
qed

lemma groups_example:
  assumes "date r1 = ''2024-03-05''" "date r2 = ''2024-03-20''" "date r3 = ''2024-04-01''"
  shows "groupedRecords L [r1, r2, r3] =
      [\<lparr>monthKey = ''2024-04'', label = L ''2024-04-01'', total = Number_add 0 (value r3),
         records = [r3]\<rparr>,
       \<lparr>monthKey = ''2024-03'', label = L ''2024-03-05'',
         total = Number_add (Number_add 0 (value r1)) (value r2), records = [r1, r2]\<rparr>]"
  using assms
  by (simp add: groupedRecords_def add_record_def Let_def sort_cmp_def localeCompare_def)

text \<open>
  C3. For every list of records the monthly grouping partitions the records by the first
  seven characters of the date: the records of a group are exactly the records of the list
  with the group's month key, in their order, and a group is never empty; no two groups
  share a key, so every record is in exactly one group, and the groups together hold the
  records of the list, each as often as the list does. A group's total is the sum of the
  values of its records as the program adds them: starting from 0, in the order of the
  records, each sum rounded to the nearest double. When the values are non-negative
  integers that add up to less than \<open>2 ^ 53\<close> no sum is rounded, and the total is their
  exact sum; when the values are at least a half, as every value that the save handler
  passes on is (\<open>handleSave_half\<close>), the total of \<open>n\<close> records is within \<open>n\<close> parts in
  \<open>2 ^ 52\<close> of their exact sum. (Three values of 0.8 make the total
  \<open>5404319552844596 / 2 ^ 51\<close>, which prints as 2.4000000000000004; their exact sum is
  \<open>10808639105689191 / 2 ^ 52\<close>.) The groups come in strictly descending order of the month key.
  Records dated 2024-03-05 and 2024-03-20 form one group whose total is the sum of their
  values, and a record dated 2024-04-01 forms another group, which comes first.
\<close>

theorem groupedRecords_partition:
  "(\<forall>g\<in>set (groupedRecords L rs).
       records g = filter (\<lambda>r. take 7 (date r) = monthKey g) rs
       \<and> records g \<noteq> []
       \<and> MonthlyGroup.total g = foldl Number_add 0 (map value (records g))
       \<and> ((\<forall>r\<in>set (records g). value r \<in> \<int> \<and> 0 \<le> value r)
              \<and> sum_list (map value (records g)) < 2 ^ 53 \<longrightarrow>
            MonthlyGroup.total g = sum_list (map value (records g)))
       \<and> ((\<forall>r\<in>set (records g). 1 / 2 \<le> value r) \<and> length (records g) \<le> 2 ^ 52 \<longrightarrow>
            \<bar>MonthlyGroup.total g - sum_list (map value (records g))\<bar>
              \<le> of_nat (length (records g)) * sum_list (map value (records g)) / 2 ^ 52))
   \<and> distinct (map monthKey (groupedRecords L rs))
   \<and> (\<forall>r\<in>set rs. \<exists>!g. g \<in> set (groupedRecords L rs) \<and> r \<in> set (records g))
   \<and> mset (concat (map records (groupedRecords L rs))) = mset rs
   \<and> sorted_wrt (\<lambda>a b. monthKey b < monthKey a) (groupedRecords L rs)
   \<and> (date r1 = ''2024-03-05'' \<and> date r2 = ''2024-03-20'' \<and> date r3 = ''2024-04-01'' \<longrightarrow>
        groupedRecords L [r1, r2, r3] =
          [\<lparr>monthKey = ''2024-04'', label = L ''2024-04-01'', total = Number_add 0 (value r3),
             records = [r3]\<rparr>,
           \<lparr>monthKey = ''2024-03'', label = L ''2024-03-05'',
             total = Number_add (Number_add 0 (value r1)) (value r2), records = [r1, r2]\<rparr>])"
proof (intro conjI ballI impI)
  fix g assume g: "g \<in> set (groupedRecords L rs)"
  from groups_entries [OF g]
  show "records g = filter (\<lambda>r. take 7 (date r) = monthKey g) rs"
    and "records g \<noteq> []"
    and total: "MonthlyGroup.total g = foldl Number_add 0 (map value (records g))"
    by blast+
  assume "(\<forall>r\<in>set (records g). value r \<in> \<int> \<and> 0 \<le> value r)
          \<and> sum_list (map value (records g)) < 2 ^ 53"
  then have "\<forall>x\<in>set (map value (records g)). x \<in> \<int> \<and> 0 \<le> x"
    and "sum_list (map value (records g)) < 2 ^ 53"
    by simp_all
  then have "foldl Number_add 0 (map value (records g)) = sum_list (map value (records g))"
    using foldl_Number_add_exact [of "map value (records g)"] by blast
  with total show "MonthlyGroup.total g = sum_list (map value (records g))" by simp
next
  fix g assume "g \<in> set (groupedRecords L rs)"
  from groups_entries [OF this]
  have total: "MonthlyGroup.total g = foldl Number_add 0 (map value (records g))" by blast
  assume "(\<forall>r\<in>set (records g). 1 / 2 \<le> value r) \<and> length (records g) \<le> 2 ^ 52"
  then have "\<forall>x\<in>set (map value (records g)). 1 / 2 \<le> x"
    and "length (map value (records g)) \<le> 2 ^ 52"
    by simp_all
  then have "\<bar>foldl Number_add 0 (map value (records g)) - sum_list (map value (records g))\<bar>
        \<le> of_nat (length (map value (records g))) * sum_list (map value (records g)) / 2 ^ 52"
    by (rule foldl_Number_add_parts)
  with total show "\<bar>MonthlyGroup.total g - sum_list (map value (records g))\<bar>
              \<le> of_nat (length (records g)) * sum_list (map value (records g)) / 2 ^ 52"
    by simp
next
  show "distinct (map monthKey (groupedRecords L rs))" by (rule groups_distinct)
next
  fix r assume "r \<in> set rs"
  then show "\<exists>!g. g \<in> set (groupedRecords L rs) \<and> r \<in> set (records g)"
    by (rule groups_unique)
next
  show "mset (concat (map records (groupedRecords L rs))) = mset rs" by (rule groups_partition)
next
  show "sorted_wrt (\<lambda>a b. monthKey b < monthKey a) (groupedRecords L rs)" by (rule groups_sorted)
next
  assume "date r1 = ''2024-03-05'' \<and> date r2 = ''2024-03-20'' \<and> date r3 = ''2024-04-01''"
  then show "groupedRecords L [r1, r2, r3] =
          [\<lparr>monthKey = ''2024-04'', label = L ''2024-04-01'', total = Number_add 0 (value r3),
             records = [r3]\<rparr>,
           \<lparr>monthKey = ''2024-03'', label = L ''2024-03-05'',
             total = Number_add (Number_add 0 (value r1)) (value r2), records = [r1, r2]\<rparr>]"
    by (simp add: groups_example)
qed

theorem groupedRecords_partition_witness:
  "groupedRecords (\<lambda>d. take 7 d)
     [parcel_record ''r1'' ''u1'' ''2024-03-05'' 3,
      parcel_record ''r2'' ''u1'' ''2024-03-20'' 5,
      parcel_record ''r3'' ''u1'' ''2024-04-01'' 2]
   = [\<lparr>monthKey = ''2024-04'', label = ''2024-04'', total = 2,
        records = [parcel_record ''r3'' ''u1'' ''2024-04-01'' 2]\<rparr>,
      \<lparr>monthKey = ''2024-03'', label = ''2024-03'', total = 8,
        records = [parcel_record ''r1'' ''u1'' ''2024-03-05'' 3,
                   parcel_record ''r2'' ''u1'' ''2024-03-20'' 5]\<rparr>]
   \<and> parcel_record ''r1'' ''u1'' ''2024-03-05'' 3
       \<in> set [parcel_record ''r1'' ''u1'' ''2024-03-05'' 3,
              parcel_record ''r2'' ''u1'' ''2024-03-20'' 5,
              parcel_record ''r3'' ''u1'' ''2024-04-01'' 2]
   \<and> mset (concat (map records (groupedRecords (\<lambda>d. take 7 d)
       [parcel_record ''r1'' ''u1'' ''2024-03-05'' 3,
        parcel_record ''r2'' ''u1'' ''2024-03-20'' 5,
        parcel_record ''r3'' ''u1'' ''2024-04-01'' 2])))
     = mset [parcel_record ''r1'' ''u1'' ''2024-03-05'' 3,
             parcel_record ''r2'' ''u1'' ''2024-03-20'' 5,
             parcel_record ''r3'' ''u1'' ''2024-04-01'' 2]
   \<and> value (parcel_record ''r1'' ''u1'' ''2024-03-05'' 3) \<in> \<int>
   \<and> 0 \<le> value (parcel_record ''r1'' ''u1'' ''2024-03-05'' 3)
   \<and> value (parcel_record ''r2'' ''u1'' ''2024-03-20'' 5) \<in> \<int>
   \<and> 0 \<le> value (parcel_record ''r2'' ''u1'' ''2024-03-20'' 5)
   \<and> sum_list (map value [parcel_record ''r1'' ''u1'' ''2024-03-05'' 3,
                             parcel_record ''r2'' ''u1'' ''2024-03-20'' 5]) = 8
   \<and> groupedRecords (\<lambda>d. take 7 d)
       [collection_record ''c1'' ''u1'' ''2024-05-01'' 1,
        collection_record ''c2'' ''u1'' ''2024-05-02'' 1,
        collection_record ''c3'' ''u1'' ''2024-05-03'' 1]
     = [\<lparr>monthKey = ''2024-05'', label = ''2024-05'', total = 5404319552844596 / 2 ^ 51,
          records = [collection_record ''c1'' ''u1'' ''2024-05-01'' 1,
                     collection_record ''c2'' ''u1'' ''2024-05-02'' 1,
                     collection_record ''c3'' ''u1'' ''2024-05-03'' 1]\<rparr>]
   \<and> sum_list (map value [collection_record ''c1'' ''u1'' ''2024-05-01'' 1,
                             collection_record ''c2'' ''u1'' ''2024-05-02'' 1,
                             collection_record ''c3'' ''u1'' ''2024-05-03'' 1])
     = 10808639105689191 / 2 ^ 52
   \<and> 1 / 2 \<le> value (collection_record ''c1'' ''u1'' ''2024-05-01'' 1)
   \<and> 1 / 2 \<le> value (collection_record ''c2'' ''u1'' ''2024-05-02'' 1)
   \<and> 1 / 2 \<le> value (collection_record ''c3'' ''u1'' ''2024-05-03'' 1)
   \<and> \<bar>5404319552844596 / 2 ^ 51
        - sum_list (map value [collection_record ''c1'' ''u1'' ''2024-05-01'' 1,
                               collection_record ''c2'' ''u1'' ''2024-05-02'' 1,
                               collection_record ''c3'' ''u1'' ''2024-05-03'' 1])\<bar>
       \<le> 3 * sum_list (map value [collection_record ''c1'' ''u1'' ''2024-05-01'' 1,
                                   collection_record ''c2'' ''u1'' ''2024-05-02'' 1,
                                   collection_record ''c3'' ''u1'' ''2024-05-03'' 1]) / 2 ^ 52"
proof -
  let ?a = "parcel_record ''r1'' ''u1'' ''2024-03-05'' 3"
  let ?b = "parcel_record ''r2'' ''u1'' ''2024-03-20'' 5"
  let ?c = "parcel_record ''r3'' ''u1'' ''2024-04-01'' 2"
  let ?x = "collection_record ''c1'' ''u1'' ''2024-05-01'' 1"
  let ?y = "collection_record ''c2'' ''u1'' ''2024-05-02'' 1"
  let ?z = "collection_record ''c3'' ''u1'' ''2024-05-03'' 1"
  have dates: "date ?a = ''2024-03-05'' \<and> date ?b = ''2024-03-20'' \<and> date ?c = ''2024-04-01''"
    and vals: "value ?a = 3" "value ?b = 5" "value ?c = 2"
    by (simp_all add: parcel_record_def)
  have one: "round_double (3602879701896397 / 4503599627370496)
             = 3602879701896397 / 4503599627370496"
    using round_double_eval [of "- 1" "3602879701896397 / 4503599627370496"]
    by (simp add: round_even_def power_int_minus floor_rat_numeral)
  have two: "round_double (3602879701896397 / 2251799813685248)
             = 3602879701896397 / 2251799813685248"
    using round_double_eval [of 0 "3602879701896397 / 2251799813685248"]
    by (simp add: round_even_def power_int_minus floor_rat_numeral)
  have three: "round_double (10808639105689191 / 4503599627370496)
               = 1351079888211149 / 562949953421312"
    using round_double_eval [of 1 "10808639105689191 / 4503599627370496"]
    by (simp add: round_even_def power_int_minus floor_rat_numeral)
  have cvals: "value ?x = 3602879701896397 / 4503599627370496"
    "value ?y = 3602879701896397 / 4503599627370496"
    "value ?z = 3602879701896397 / 4503599627370496"
    by (simp_all add: collection_record_def Number_multiply_def round_double_4_5 one)
  from groupedRecords_partition [of "\<lambda>d. take 7 d" "[?a, ?b, ?c]" ?a ?b ?c] dates
  have groups: "groupedRecords (\<lambda>d. take 7 d) [?a, ?b, ?c] =
          [\<lparr>monthKey = ''2024-04'', label = take 7 ''2024-04-01'',
             total = Number_add 0 (value ?c), records = [?c]\<rparr>,
           \<lparr>monthKey = ''2024-03'', label = take 7 ''2024-03-05'',
             total = Number_add (Number_add 0 (value ?a)) (value ?b), records = [?a, ?b]\<rparr>]"
    and parts: "mset (concat (map records (groupedRecords (\<lambda>d. take 7 d) [?a, ?b, ?c])))
                = mset [?a, ?b, ?c]"
    by blast+
  have dates': "date ?x = ''2024-05-01''" "date ?y = ''2024-05-02''" "date ?z = ''2024-05-03''"
    by (simp_all add: collection_record_def)
  have may: "groupedRecords (\<lambda>d. take 7 d) [?x, ?y, ?z]
     = [\<lparr>monthKey = ''2024-05'', label = ''2024-05'', total = 5404319552844596 / 2 ^ 51,
          records = [?x, ?y, ?z]\<rparr>]"
    by (simp add: groupedRecords_def add_record_def Let_def sort_cmp_def cvals dates'
        Number_add_def one two three)
  have half: "1 / 2 \<le> value ?x" "1 / 2 \<le> value ?y" "1 / 2 \<le> value ?z"
    by (simp_all add: cvals)
  from groupedRecords_partition [of "\<lambda>d. take 7 d" "[?x, ?y, ?z]"]
  have "\<forall>g\<in>set (groupedRecords (\<lambda>d. take 7 d) [?x, ?y, ?z]).
          (\<forall>r\<in>set (records g). 1 / 2 \<le> value r) \<and> length (records g) \<le> 2 ^ 52 \<longrightarrow>
            \<bar>MonthlyGroup.total g - sum_list (map value (records g))\<bar>
              \<le> of_nat (length (records g)) * sum_list (map value (records g)) / 2 ^ 52"
    by blast
  with half have near: "\<bar>5404319552844596 / 2 ^ 51 - sum_list (map value [?x, ?y, ?z])\<bar>
       \<le> 3 * sum_list (map value [?x, ?y, ?z]) / 2 ^ 52"
    unfolding may by simp
  show ?thesis
    unfolding groups may using parts [unfolded groups] near half
    by (simp add: vals cvals Number_add_def round_double_numeral)
qed

section \<open>The value of a saved record\<close>

text \<open>Every value that the save handler passes on is at least a half.\<close>

lemma handleSave_half:
  assumes "handleSave user v = Inr ds"
  shows "\<forall>d\<in>set ds. 1 / 2 \<le> value d"
  using assms
  by (auto simp add: handleSave_def Let_def positive_def or_zero_def previewValue_def
      calculateDaily_def parcel_half collection_half split: if_splits option.splits)

text \<open>
  C9. Every draft that the save handler passes to \<open>createRecord\<close> carries the pay that the
  calculator gives for its mode, type, quantity and two-IDs flag. An INDIVIDUAL submission
  makes one PARCEL draft when the parcel quantity is positive and one COLLECTION draft when
  the collection quantity is positive, in this order and no other draft; their values are
  the quantity times 1.00 and the quantity times 0.80, as JavaScript multiplies numbers:
  the product with the double \<open>0.80\<close>, rounded to the nearest double. So a PARCEL value is
  the quantity itself (below \<open>2 ^ 53\<close>), and a COLLECTION value is within one part in
  \<open>2 ^ 52\<close> of four fifths of the quantity: for three collections the handler passes
  \<open>5404319552844596 / 2 ^ 51\<close>, which prints as 2.4000000000000004. A DAILY submission makes
  one DAILY_FLAT draft whose value is \<open>calculateDaily\<close> of the form's two-IDs flag and the
  entered quantity. (The handler writes the two INDIVIDUAL products itself; they are the
  \<open>parcelValue\<close> and the \<open>collectionValue\<close> that \<open>calculateIndividual\<close> gives.)
\<close>

theorem handleSave_values:
  assumes "handleSave user v = Inr ds"
  shows "(\<forall>d\<in>set ds. value d = payOf (mode d) (type d) (quantity d) (isTwoIDs d)
            \<and> mode d = CalculatorView.mode v)
   \<and> length ds \<le> 2
   \<and> (CalculatorView.mode v = INDIVIDUAL \<longrightarrow>
        map type ds = (if positive (parseInt (parcels v)) then [PARCEL] else []) @
                      (if positive (parseInt (collections v)) then [COLLECTION] else [])
        \<and> map quantity ds =
            (if positive (parseInt (parcels v)) then [or_zero (parseInt (parcels v))] else []) @
            (if positive (parseInt (collections v)) then [or_zero (parseInt (collections v))] else [])
        \<and> (\<forall>d\<in>set ds. 0 < quantity d
              \<and> (type d = PARCEL \<longrightarrow>
                   value d = Number_multiply (rat_of_int (quantity d)) (round_double 1.00))
              \<and> (type d = COLLECTION \<longrightarrow>
                   value d = Number_multiply (rat_of_int (quantity d)) (round_double 0.80))))
   \<and> (\<forall>d\<in>set ds. mode d = INDIVIDUAL \<and> type d = PARCEL \<and> quantity d < 2 ^ 53 \<longrightarrow>
         value d = rat_of_int (quantity d))
   \<and> (\<forall>d\<in>set ds. mode d = INDIVIDUAL \<and> type d = COLLECTION \<longrightarrow>
         \<bar>value d - rat_of_int (quantity d) * (4 / 5)\<bar>
           \<le> rat_of_int (quantity d) * (4 / 5) / 2 ^ 52)
   \<and> (CalculatorView.mode v = DAILY \<longrightarrow>
        (\<exists>d. ds = [d] \<and> type d = DAILY_FLAT
             \<and> isTwoIDs d = Some (CalculatorView.isTwoIDs v)
             \<and> value d = calculateDaily (CalculatorView.isTwoIDs v) (or_zero (parseInt (dailyQty v)))))"
proof -
  have pay: "\<forall>d\<in>set ds. value d = payOf (mode d) (type d) (quantity d) (isTwoIDs d)
            \<and> mode d = CalculatorView.mode v"
    and len: "length ds \<le> 2"
    and ind: "CalculatorView.mode v = INDIVIDUAL \<longrightarrow>
        map type ds = (if positive (parseInt (parcels v)) then [PARCEL] else []) @
                      (if positive (parseInt (collections v)) then [COLLECTION] else [])
        \<and> map quantity ds =
            (if positive (parseInt (parcels v)) then [or_zero (parseInt (parcels v))] else []) @
            (if positive (parseInt (collections v)) then [or_zero (parseInt (collections v))] else [])
        \<and> (\<forall>d\<in>set ds. 0 < quantity d
              \<and> (type d = PARCEL \<longrightarrow>
                   value d = Number_multiply (rat_of_int (quantity d)) (round_double 1.00))
              \<and> (type d = COLLECTION \<longrightarrow>
                   value d = Number_multiply (rat_of_int (quantity d)) (round_double 0.80)))"
    and day: "CalculatorView.mode v = DAILY \<longrightarrow>
        (\<exists>d. ds = [d] \<and> type d = DAILY_FLAT
             \<and> isTwoIDs d = Some (CalculatorView.isTwoIDs v)
             \<and> value d = calculateDaily (CalculatorView.isTwoIDs v) (or_zero (parseInt (dailyQty v))))"
  proof -
    show "\<forall>d\<in>set ds. value d = payOf (mode d) (type d) (quantity d) (isTwoIDs d)
            \<and> mode d = CalculatorView.mode v"
    proof (cases "CalculatorView.mode v")
      case INDIVIDUAL
      with assms show ?thesis
        by (auto simp add: handleSave_def Let_def calculateIndividual_def positive_def or_zero_def
            split: if_splits option.splits)
    next
      case DAILY
      with assms show ?thesis
        by (auto simp add: handleSave_def Let_def previewValue_def calculateDaily_def
            split: if_splits)
    qed
    show "length ds \<le> 2"
      using assms by (auto simp add: handleSave_def Let_def split: if_splits)
    show "CalculatorView.mode v = INDIVIDUAL \<longrightarrow>
        map type ds = (if positive (parseInt (parcels v)) then [PARCEL] else []) @
                      (if positive (parseInt (collections v)) then [COLLECTION] else [])
        \<and> map quantity ds =
            (if positive (parseInt (parcels v)) then [or_zero (parseInt (parcels v))] else []) @
            (if positive (parseInt (collections v)) then [or_zero (parseInt (collections v))] else [])
        \<and> (\<forall>d\<in>set ds. 0 < quantity d
              \<and> (type d = PARCEL \<longrightarrow>
                   value d = Number_multiply (rat_of_int (quantity d)) (round_double 1.00))
              \<and> (type d = COLLECTION \<longrightarrow>
                   value d = Number_multiply (rat_of_int (quantity d)) (round_double 0.80)))"
      using assms
      by (auto simp add: handleSave_def Let_def positive_def or_zero_def
          split: if_splits option.splits)
    show "CalculatorView.mode v = DAILY \<longrightarrow>
        (\<exists>d. ds = [d] \<and> type d = DAILY_FLAT
             \<and> isTwoIDs d = Some (CalculatorView.isTwoIDs v)
             \<and> value d = calculateDaily (CalculatorView.isTwoIDs v) (or_zero (parseInt (dailyQty v))))"
      using assms
      by (auto simp add: handleSave_def Let_def previewValue_def split: if_splits)
  qed
  have parcel: "\<forall>d\<in>set ds. mode d = INDIVIDUAL \<and> type d = PARCEL \<and> quantity d < 2 ^ 53 \<longrightarrow>
         value d = rat_of_int (quantity d)"
  proof (intro ballI impI)
    fix d assume d: "d \<in> set ds"
      and "mode d = INDIVIDUAL \<and> type d = PARCEL \<and> quantity d < 2 ^ 53"
    then have m: "mode d = INDIVIDUAL" and t: "type d = PARCEL" and q: "quantity d < 2 ^ 53"
      by simp_all
    from pay d m have "CalculatorView.mode v = INDIVIDUAL" by auto
    with ind d t have "0 < quantity d"
      and v: "value d = Number_multiply (rat_of_int (quantity d)) (round_double 1.00)"
      by blast+
    with q have "\<bar>quantity d\<bar> < 2 ^ 53" by simp
    then show "value d = rat_of_int (quantity d)" unfolding v by (rule Number_multiply_1)
  qed
  have coll: "\<forall>d\<in>set ds. mode d = INDIVIDUAL \<and> type d = COLLECTION \<longrightarrow>
         \<bar>value d - rat_of_int (quantity d) * (4 / 5)\<bar>
           \<le> rat_of_int (quantity d) * (4 / 5) / 2 ^ 52"
  proof (intro ballI impI)
    fix d assume d: "d \<in> set ds" and "mode d = INDIVIDUAL \<and> type d = COLLECTION"
    then have m: "mode d = INDIVIDUAL" and t: "type d = COLLECTION" by simp_all
    from pay d m have "CalculatorView.mode v = INDIVIDUAL" by auto
    with ind d t have "0 < quantity d"
      and v: "value d = Number_multiply (rat_of_int (quantity d)) (round_double 0.80)"
      by blast+
    then have "0 \<le> quantity d" by simp
    then show "\<bar>value d - rat_of_int (quantity d) * (4 / 5)\<bar>
           \<le> rat_of_int (quantity d) * (4 / 5) / 2 ^ 52"
      unfolding v by (rule collection_bound)
  qed
  from pay len ind parcel coll day show ?thesis by blast
qed

theorem handleSave_values_witness:
  "handleSave example_driver individual_form =
     Inr [\<lparr>userId = ''u1'', date = ''2024-03-05'', mode = INDIVIDUAL, type = PARCEL,
           quantity = 3, value = 3, routeNames = Some [], isTwoIDs = Some False, photos = []\<rparr>,
          \<lparr>userId = ''u1'', date = ''2024-03-05'', mode = INDIVIDUAL, type = COLLECTION,
           quantity = 5, value = 4, routeNames = Some [], isTwoIDs = Some False, photos = []\<rparr>]
   \<and> CalculatorView.mode individual_form = INDIVIDUAL
   \<and> payOf INDIVIDUAL PARCEL 3 (Some False) = 3
   \<and> payOf INDIVIDUAL COLLECTION 5 (Some False) = 4
   \<and> handleSave example_driver collection_form =
     Inr [\<lparr>userId = ''u1'', date = ''2024-03-07'', mode = INDIVIDUAL, type = COLLECTION,
           quantity = 3, value = 5404319552844596 / 2 ^ 51, routeNames = Some ''R'',
           isTwoIDs = Some False, photos = []\<rparr>]
   \<and> CalculatorView.mode collection_form = INDIVIDUAL
   \<and> payOf INDIVIDUAL COLLECTION 3 (Some False) = 5404319552844596 / 2 ^ 51
   \<and> \<bar>5404319552844596 / 2 ^ 51 - rat_of_int 3 * (4 / 5)\<bar> \<le> rat_of_int 3 * (4 / 5) / 2 ^ 52
   \<and> handleSave example_driver daily_form =
     Inr [\<lparr>userId = ''u1'', date = ''2024-03-06'', mode = DAILY, type = DAILY_FLAT,
           quantity = 150, value = 300, routeNames = Some ''A + B'', isTwoIDs = Some True,
           photos = []\<rparr>]
   \<and> CalculatorView.mode daily_form = DAILY
   \<and> payOf DAILY DAILY_FLAT 150 (Some True) = 300"
proof -
  have three: "parseInt ''3'' = Some 3" and five: "parseInt ''5'' = Some 5"
    and many: "parseInt ''150'' = Some 150" and none: "parseInt [] = None"
    by (simp_all add: parseInt_def isWhiteSpace_def isRadixDigit_def digitValue_def
        radixValue_def Let_def)
  have r5: "round_double (18014398509481985 / 4503599627370496) = 4"
    using round_double_eval [of 2 "18014398509481985 / 4503599627370496"]
    by (simp add: round_even_def power_int_minus floor_rat_numeral)
  have r3: "round_double (10808639105689191 / 4503599627370496)
            = 1351079888211149 / 562949953421312"
    using round_double_eval [of 1 "10808639105689191 / 4503599627370496"]
    by (simp add: round_even_def power_int_minus floor_rat_numeral)
  have ind: "handleSave example_driver individual_form =
     Inr [\<lparr>userId = ''u1'', date = ''2024-03-05'', mode = INDIVIDUAL, type = PARCEL,
           quantity = 3, value = 3, routeNames = Some [], isTwoIDs = Some False, photos = []\<rparr>,
          \<lparr>userId = ''u1'', date = ''2024-03-05'', mode = INDIVIDUAL, type = COLLECTION,
           quantity = 5, value = 4, routeNames = Some [], isTwoIDs = Some False, photos = []\<rparr>]"
    by (simp add: handleSave_def individual_form_def example_driver_def three five
        falsy_def positive_def or_zero_def Number_multiply_def round_double_1 round_double_4_5
        round_double_numeral r5)
  have col: "handleSave example_driver collection_form =
     Inr [\<lparr>userId = ''u1'', date = ''2024-03-07'', mode = INDIVIDUAL, type = COLLECTION,
           quantity = 3, value = 5404319552844596 / 2 ^ 51, routeNames = Some ''R'',
           isTwoIDs = Some False, photos = []\<rparr>]"
    by (simp add: handleSave_def collection_form_def example_driver_def three none
        falsy_def positive_def or_zero_def Number_multiply_def round_double_4_5 r3)
  have day: "handleSave example_driver daily_form =
     Inr [\<lparr>userId = ''u1'', date = ''2024-03-06'', mode = DAILY, type = DAILY_FLAT,
           quantity = 150, value = 300, routeNames = Some ''A + B'', isTwoIDs = Some True,
           photos = []\<rparr>]"
    by (simp add: handleSave_def daily_form_def example_driver_def many previewValue_def
        calculateDaily_def or_zero_def)
  from handleSave_values [OF ind] handleSave_values [OF col] handleSave_values [OF day] ind col day
  show ?thesis
    by (simp add: individual_form_def collection_form_def daily_form_def)
qed

end
